theory Spec2Isabelle
  imports Main "HOL-Library.AList" "HOL-Library.Sublist"
begin

section \<open>JSON values and JavaScript objects\<close>

text \<open>
  The catalogs, the assets manifest and the package manifest are the results of
  \<^verbatim>\<open>JSON.parse\<close>. An object is an association list with distinct keys, in the
  order in which JavaScript enumerates them; a property that is absent
  (\<^verbatim>\<open>undefined\<close>) is \<open>None\<close>. Reading a property is \<open>map_of\<close>, assigning one is
  \<open>AList.update\<close> (an existing key keeps its place, a new key goes last), and
  \<^verbatim>\<open>delete\<close> is \<open>AList.delete\<close>. A number is given by the text that JavaScript prints
  for it (\<^verbatim>\<open>0\<close> for either zero), which decides whether it is truthy, which
  property name it turns into, and whether it equals another number. Strings are
  lists of code units below 256.
\<close>

datatype json =
    JNull
  | JBool bool
  | JNum string
  | JStr string
  | JArr "json list"
  | JObj "(string \<times> json) list"

type_synonym obj = "(string \<times> json) list"

datatype error =
    TypeError
  | NotFound
  | NoDomain
  | External string

text \<open>JavaScript truthiness of a property value that may be absent.\<close>

fun truthy :: "json option \<Rightarrow> bool" where
  "truthy None = False"
| "truthy (Some JNull) = False"
| "truthy (Some (JBool b)) = b"
| "truthy (Some (JNum n)) = (n \<noteq> ''0'')"
| "truthy (Some (JStr s)) = (s \<noteq> [])"
| "truthy (Some (JArr xs)) = True"
| "truthy (Some (JObj kvs)) = True"

section \<open>lodash: \<^verbatim>\<open>_.merge\<close>\<close>

text \<open>
  \<^verbatim>\<open>_.merge(object, ...sources)\<close> merges the sources into \<^verbatim>\<open>object\<close> from left to
  right, mutates \<^verbatim>\<open>object\<close> and returns it. For every property of a source:
  a plain object is merged recursively into the destination's value when that is
  an object and into a fresh object otherwise; an array is merged index by index
  into the destination's value when that is an array and into a fresh array
  otherwise; any other value is assigned. Sources are never mutated, and no part
  of a source is shared with the result.

  The functions below describe \<^verbatim>\<open>_.merge\<close> on the values that the predicate
  \<open>jed_catalog\<close> of the properties admits, and every property of the merge is
  stated for those. Three cases are not described: a property named
  \<^verbatim>\<open>__proto__\<close>, which lodash skips; a source object met where the destination
  holds an array, where lodash keeps the array and sets the properties on it;
  and a source array met where the destination holds an object with a
  \<^verbatim>\<open>length\<close>, which lodash copies into an array.

  \<open>mergeProp ov v\<close> is the value the destination's property holds after the
  source's value \<open>v\<close> has been merged into its old value \<open>ov\<close>.
\<close>

fun mergeProp :: "json option \<Rightarrow> json \<Rightarrow> json"
  and mergeArr :: "json list \<Rightarrow> json list \<Rightarrow> json list"
  and mergeObj :: "obj \<Rightarrow> obj \<Rightarrow> obj" where
  "mergeProp ov (JArr ys) =
     JArr (mergeArr (case ov of Some (JArr xs) \<Rightarrow> xs | _ \<Rightarrow> []) ys)"
| "mergeProp ov (JObj src) =
     JObj (mergeObj (case ov of Some (JObj ob) \<Rightarrow> ob | _ \<Rightarrow> []) src)"
| "mergeProp ov JNull = JNull"
| "mergeProp ov (JBool b) = JBool b"
| "mergeProp ov (JNum n) = JNum n"
| "mergeProp ov (JStr s) = JStr s"
| "mergeArr xs [] = xs"
| "mergeArr [] (y # ys) = mergeProp None y # mergeArr [] ys"
| "mergeArr (x # xs) (y # ys) = mergeProp (Some x) y # mergeArr xs ys"
| "mergeObj ob [] = ob"
| "mergeObj ob ((k, v) # src) =
     mergeObj (AList.update k (mergeProp (map_of ob k) v) ob) src"

section \<open>Strings and paths (Node's \<^verbatim>\<open>path\<close> module, POSIX flavour)\<close>

definition slash :: char where
  "slash = CHR ''/''"

definition dot :: char where
  "dot = CHR ''.''"

text \<open>\<^verbatim>\<open>s.split(c)\<close>: the pieces of \<open>s\<close> between the occurrences of \<open>c\<close>.\<close>

fun split_on :: "char \<Rightarrow> string \<Rightarrow> string list" where
  "split_on c [] = [[]]"
| "split_on c (x # xs) =
     (if x = c then [] # split_on c xs
      else (case split_on c xs of [] \<Rightarrow> [[x]] | s # ss \<Rightarrow> (x # s) # ss))"

text \<open>\<^verbatim>\<open>parts.join(sep)\<close>.\<close>

fun join_with :: "string \<Rightarrow> string list \<Rightarrow> string" where
  "join_with sep [] = []"
| "join_with sep [s] = s"
| "join_with sep (s # t # ss) = s @ sep @ join_with sep (t # ss)"

text \<open>
  \<^verbatim>\<open>normalizeString\<close> walks the segments of a path with the segments kept so far:
  an empty segment and \<^verbatim>\<open>.\<close> are dropped, \<^verbatim>\<open>..\<close> removes the last kept segment
  unless there is none or it is \<^verbatim>\<open>..\<close> itself, in which case \<^verbatim>\<open>..\<close> is kept for a
  relative path and dropped for an absolute one.
\<close>

fun normalizeSegments :: "bool \<Rightarrow> string list \<Rightarrow> string list \<Rightarrow> string list" where
  "normalizeSegments allowAboveRoot res [] = res"
| "normalizeSegments allowAboveRoot res (s # ss) =
     (if s = [] \<or> s = ''.'' then normalizeSegments allowAboveRoot res ss
      else if s = ''..'' then
        (if res \<noteq> [] \<and> last res \<noteq> ''..''
           then normalizeSegments allowAboveRoot (butlast res) ss
         else if allowAboveRoot
           then normalizeSegments allowAboveRoot (res @ [''..'']) ss
         else normalizeSegments allowAboveRoot res ss)
      else normalizeSegments allowAboveRoot (res @ [s]) ss)"

definition normalizeString :: "string \<Rightarrow> bool \<Rightarrow> string" where
  "normalizeString p allowAboveRoot =
     join_with ''/'' (normalizeSegments allowAboveRoot [] (split_on slash p))"

definition normalize :: "string \<Rightarrow> string" where
  "normalize p =
     (if p = [] then ''.''
      else
        let isAbsolute = (hd p = slash);
            trailingSeparator = (last p = slash);
            q = normalizeString p (\<not> isAbsolute)
        in if q = [] then
             (if isAbsolute then ''/'' else if trailingSeparator then ''./'' else ''.'')
           else (if isAbsolute then ''/'' else []) @ q
                @ (if trailingSeparator then ''/'' else []))"

text \<open>\<^verbatim>\<open>path.join(...args)\<close> on string arguments.\<close>

definition path_join :: "string list \<Rightarrow> string" where
  "path_join args =
     (let joined = join_with ''/'' (filter (\<lambda>a. a \<noteq> []) args)
      in if joined = [] then ''.'' else normalize joined)"

text \<open>
  \<^verbatim>\<open>path.extname(p)\<close>: from the last dot of the last segment of \<open>p\<close> (trailing
  separators ignored) to its end; empty when that segment has no dot, when its
  only dot is its first character, and when it is \<^verbatim>\<open>..\<close>.
\<close>

definition basename_of :: "string \<Rightarrow> string" where
  "basename_of p =
     rev (takeWhile (\<lambda>c. c \<noteq> slash) (dropWhile (\<lambda>c. c = slash) (rev p)))"

definition extname :: "string \<Rightarrow> string" where
  "extname p =
     (let b = basename_of p;
          e = takeWhile (\<lambda>c. c \<noteq> dot) (rev b)
      in if dot \<notin> set b \<or> Suc (length e) = length b \<or> b = ''..'' then []
         else dot # rev e)"

text \<open>\<^verbatim>\<open>s.replace(pat, '')\<close> with a string pattern: the first occurrence goes.\<close>

fun remove_first :: "string \<Rightarrow> string \<Rightarrow> string" where
  "remove_first pat [] = []"
| "remove_first pat (c # cs) =
     (if prefix pat (c # cs) then drop (length pat) (c # cs)
      else c # remove_first pat cs)"

text \<open>The second \<^verbatim>\<open>replace\<close>, with a pattern anchored at the start: one leading separator goes.\<close>

fun strip_leading_slash :: "string \<Rightarrow> string" where
  "strip_leading_slash [] = []"
| "strip_leading_slash (c # cs) = (if c = slash then cs else c # cs)"

section \<open>make-json: the text domain\<close>

text \<open>
  The regular expression that \<^verbatim>\<open>content.match\<close> searches for, with the flag
  \<^verbatim>\<open>i\<close>: a double quote,
  \<^verbatim>\<open>x-domain: \<close> in either case, a greedy non-empty run of non-space characters,
  and then a backslash, the letter n in either case and a double quote. The search takes the
  leftmost position that matches; the run backtracks from its longest length.
  \<open>None\<close> is the \<^verbatim>\<open>null\<close> that \<^verbatim>\<open>match\<close> returns when nothing matches, \<open>Some d\<close> is the
  captured group.
\<close>

definition toLowerAscii :: "char \<Rightarrow> char" where
  "toLowerAscii c =
     (case map_of (zip ''ABCDEFGHIJKLMNOPQRSTUVWXYZ'' ''abcdefghijklmnopqrstuvwxyz'') c of
        Some d \<Rightarrow> d | None \<Rightarrow> c)"

definition is_space :: "char \<Rightarrow> bool" where
  "is_space c \<longleftrightarrow>
     c \<in> {CHR '' '', CHR 0x09, CHR 0x0A, CHR 0x0B, CHR 0x0C, CHR 0x0D, CHR 0xA0}"

definition marker_head :: string where
  "marker_head = CHR 0x22 # ''x-domain: ''"

definition marker_tail :: string where
  "marker_tail = [CHR 0x5C, CHR ''n'', CHR 0x22]"

fun capture_run :: "string \<Rightarrow> string option" where
  "capture_run [] = None"
| "capture_run (c # cs) =
     (case capture_run cs of
        Some d \<Rightarrow> Some (c # d)
      | None \<Rightarrow>
          if map toLowerAscii (take (length marker_tail) cs) = marker_tail then Some [c]
          else None)"

definition match_at :: "string \<Rightarrow> string option" where
  "match_at s =
     (if map toLowerAscii (take (length marker_head) s) = marker_head
      then capture_run (takeWhile (\<lambda>c. \<not> is_space c) (drop (length marker_head) s))
      else None)"

fun x_domain_match :: "string \<Rightarrow> string option" where
  "x_domain_match [] = None"
| "x_domain_match (c # cs) =
     (case match_at (c # cs) of Some d \<Rightarrow> Some d | None \<Rightarrow> x_domain_match cs)"

text \<open>
  The file system is read through \<open>readdir\<close> and \<open>readFile\<close>, which return the
  listing of a directory and the text of a file, or the error they raise.
\<close>

type_synonym readdir_fn = "string \<Rightarrow> error + string list"
type_synonym readFile_fn = "string \<Rightarrow> error + string"

text \<open>
  The loop of \<^verbatim>\<open>extractDomain\<close> over the template files. Destructuring the result
  of \<^verbatim>\<open>match\<close> raises a TypeError when it is \<^verbatim>\<open>null\<close>.
\<close>

fun extractDomain_loop :: "readFile_fn \<Rightarrow> string \<Rightarrow> string list \<Rightarrow> error + string" where
  "extractDomain_loop readFile distDir [] = Inl NoDomain"
| "extractDomain_loop readFile distDir (file # files) =
     (case readFile (path_join [distDir, file]) of
        Inl e \<Rightarrow> Inl e
      | Inr content \<Rightarrow>
          (case x_domain_match content of
             None \<Rightarrow> Inl TypeError
           | Some domain \<Rightarrow>
               if domain \<noteq> [] then Inr domain
               else extractDomain_loop readFile distDir files))"

definition extractDomain :: "readdir_fn \<Rightarrow> readFile_fn \<Rightarrow> string \<Rightarrow> error + string" where
  "extractDomain readdir readFile distDir =
     (case readdir distDir of
        Inl e \<Rightarrow> Inl e
      | Inr files \<Rightarrow>
          let translationFiles =
                filter (\<lambda>file. extname file = ''.pot'' \<or> extname file = ''.po'') files
          in if length translationFiles < 1 then Inl NotFound
             else extractDomain_loop readFile distDir translationFiles)"

section \<open>make-json: regrouping the catalogs\<close>

text \<open>The \<^verbatim>\<open>paths\<close> object of \<^verbatim>\<open>getData\<close>.\<close>

record paths =
  root :: string
  src :: string
  dist :: string
  languages :: string
  views :: string
  temp :: string

text \<open>
  \<^verbatim>\<open>madge(srcFile)\<close> is the external dependency analysis: it gives the keys of
  \<^verbatim>\<open>result.obj()\<close>, or the error it rejects with. \<^verbatim>\<open>md5\<close> is the external
  digest.
\<close>

type_synonym madge_fn = "string \<Rightarrow> error + string list"
type_synonym md5_fn = "string \<Rightarrow> string"

text \<open>
  The callback of the filter: \<^verbatim>\<open>path.join\<close> raises a TypeError on an argument that
  is not a string, so on every fragment that is not an object with a string
  \<^verbatim>\<open>source\<close>.
\<close>

fun isRelated :: "string list \<Rightarrow> string \<Rightarrow> json \<Rightarrow> error + bool" where
  "isRelated dependecies r (JObj translation) =
     (case map_of translation ''source'' of
        Some (JStr s) \<Rightarrow> Inr (path_join [r, s] \<in> set dependecies)
      | _ \<Rightarrow> Inl TypeError)"
| "isRelated dependecies r _ = Inl TypeError"

text \<open>\<^verbatim>\<open>Array.prototype.filter\<close> with a callback that may raise.\<close>

fun array_filter :: "('a \<Rightarrow> error + bool) \<Rightarrow> 'a list \<Rightarrow> error + 'a list" where
  "array_filter f [] = Inr []"
| "array_filter f (x # xs) =
     (case f x of
        Inl e \<Rightarrow> Inl e
      | Inr b \<Rightarrow>
          (case array_filter f xs of
             Inl e \<Rightarrow> Inl e
           | Inr ys \<Rightarrow> Inr (if b then x # ys else ys)))"

text \<open>
  \<^verbatim>\<open>_.merge(...relatedTranslations)\<close>: the first related fragment is the
  destination and is mutated; the others are merged into it in order. Only
  objects reach the merge, since the filter raised on everything else.
\<close>

fun lodash_merge :: "json \<Rightarrow> json list \<Rightarrow> json" where
  "lodash_merge object [] = object"
| "lodash_merge (JObj ob) (JObj source # sources) =
     lodash_merge (JObj (mergeObj ob source)) sources"
| "lodash_merge object (source # sources) = lodash_merge object sources"

text \<open>The decimal digits of an array index.\<close>

fun show_nat :: "nat \<Rightarrow> string" where
  "show_nat n =
     (if n < 10 then [''0123456789'' ! n]
      else show_nat (n div 10) @ [''0123456789'' ! (n mod 10)])"

declare show_nat.simps [simp del]

text \<open>The string a value turns into when it is used as a property name.\<close>

fun toPropertyKey :: "json \<Rightarrow> string" where
  "toPropertyKey (JStr s) = s"
| "toPropertyKey JNull = ''null''"
| "toPropertyKey (JBool b) = (if b then ''true'' else ''false'')"
| "toPropertyKey (JNum n) = n"
| "toPropertyKey (JObj kvs) = ''[object Object]''"
| "toPropertyKey (JArr xs) =
     join_with '','' (map (\<lambda>x. if x = JNull then [] else toPropertyKey x) xs)"

text \<open>
  The re-domain step on the merged catalog. The module is strict code, so
  assigning a property of a string, a number or a boolean raises a TypeError, as
  reading a property of \<^verbatim>\<open>undefined\<close> or \<^verbatim>\<open>null\<close> does. Assigning
  \<^verbatim>\<open>domain\<close> on a metadata entry that is an array leaves what is serialised
  unchanged.

  The definition describes the step where \<^verbatim>\<open>locale_data\<close> is an object, as in
  every catalog of the localisation tool, and the target domain is not
  \<^verbatim>\<open>__proto__\<close>; the properties of the step that moves a table are stated for
  those. Not described are an array in the place of \<^verbatim>\<open>locale_data\<close>, whose
  elements and \<^verbatim>\<open>length\<close> the assignments would change, and the target domain
  \<^verbatim>\<open>__proto__\<close>, for which the assignment sets the prototype of \<^verbatim>\<open>locale_data\<close>
  and adds no key.
\<close>

definition redomain :: "string \<Rightarrow> obj \<Rightarrow> error + obj" where
  "redomain domain mergedTranslations =
     (case map_of mergedTranslations ''domain'' of
        None \<Rightarrow> Inr mergedTranslations
      | Some originalDomain \<Rightarrow>
          if truthy (Some originalDomain) \<and> originalDomain \<noteq> JStr domain then
            (case map_of mergedTranslations ''locale_data'' of
               Some (JObj locale_data) \<Rightarrow>
                 (case map_of locale_data (toPropertyKey originalDomain) of
                    None \<Rightarrow> Inl TypeError
                  | Some moved \<Rightarrow>
                      let locale_data' =
                            AList.delete (toPropertyKey originalDomain)
                              (AList.update domain moved locale_data)
                      in (case map_of locale_data' domain of
                            Some (JObj table) \<Rightarrow>
                              (case map_of table [] of
                                 Some (JObj meta) \<Rightarrow>
                                   Inr (AList.update ''domain'' (JStr domain)
                                     (AList.update ''locale_data''
                                       (JObj (AList.update domain
                                         (JObj (AList.update []
                                           (JObj (AList.update ''domain'' (JStr domain) meta))
                                           table))
                                         locale_data'))
                                       mergedTranslations))
                               | Some (JArr xs) \<Rightarrow>
                                   Inr (AList.update ''domain'' (JStr domain)
                                     (AList.update ''locale_data'' (JObj locale_data')
                                       mergedTranslations))
                               | _ \<Rightarrow> Inl TypeError)
                          | _ \<Rightarrow> Inl TypeError))
             | _ \<Rightarrow> Inl TypeError)
          else Inr mergedTranslations)"

definition relativeFilename :: "paths \<Rightarrow> string \<Rightarrow> string" where
  "relativeFilename paths distFile =
     strip_leading_slash (remove_first (root paths) distFile)"

definition translationFileName :: "md5_fn \<Rightarrow> paths \<Rightarrow> string \<Rightarrow> string \<Rightarrow> string \<Rightarrow> string" where
  "translationFileName md5 paths domain lang rel =
     path_join [dist paths, domain @ ''-'' @ lang @ ''-'' @ md5 rel @ ''.json'']"

text \<open>
  The body of the loop of \<^verbatim>\<open>generateTranslations\<close> for one manifest entry whose
  key has the extension \<^verbatim>\<open>.js\<close>. The fragments are the state: the result holds
  the fragments as the body leaves them, and the file it hands to
  \<^verbatim>\<open>fs.writeFile\<close> (its name and the catalog that is serialised at that moment), if
  any. The first related fragment is the object that \<^verbatim>\<open>_.merge\<close> returns, so
  every later assignment to \<^verbatim>\<open>mergedTranslations\<close> is an assignment to it.
\<close>

definition first_related :: "string list \<Rightarrow> string \<Rightarrow> json list \<Rightarrow> nat" where
  "first_related dependecies r translations =
     length (takeWhile (\<lambda>t. isRelated dependecies r t \<noteq> Inr True) translations)"

definition generateTranslations_entry ::
  "madge_fn \<Rightarrow> md5_fn \<Rightarrow> string \<Rightarrow> string \<Rightarrow> paths \<Rightarrow> string \<Rightarrow> json \<Rightarrow> json list
     \<Rightarrow> error + (json list \<times> (string \<times> json) option)" where
  "generateTranslations_entry madge md5 lang domain paths key outFile translations =
     (case outFile of
        JStr out \<Rightarrow>
          (let srcFile = path_join [src paths, key];
               distFile = path_join [dist paths, out]
           in case madge srcFile of
                Inl e \<Rightarrow> Inl e
              | Inr deps \<Rightarrow>
                  (let dependecies = map (\<lambda>dep. path_join [src paths, dep]) deps
                   in case array_filter (isRelated dependecies (root paths)) translations of
                        Inl e \<Rightarrow> Inl e
                      | Inr [] \<Rightarrow> Inr (translations, None)
                      | Inr (object # sources) \<Rightarrow>
                          (case lodash_merge object sources of
                             JObj mergedTranslations \<Rightarrow>
                               (case redomain domain mergedTranslations of
                                  Inl e \<Rightarrow> Inl e
                                | Inr redomained \<Rightarrow>
                                    (let relative = relativeFilename paths distFile;
                                         written = JObj (AList.update ''source'' (JStr relative) redomained)
                                     in Inr (translations
                                               [first_related dependecies (root paths) translations := written],
                                             Some (translationFileName md5 paths domain lang relative,
                                                   written))))
                           | _ \<Rightarrow> Inl TypeError)))
      | _ \<Rightarrow> Inl TypeError)"

text \<open>
  \<^verbatim>\<open>generateTranslations\<close> for one locale: the loop over the manifest. The result
  is the list of files handed to \<^verbatim>\<open>fs.writeFile\<close>, in order, and either the
  error that ended the loop or the fragments as the loop leaves them. A write
  that was started before an error stays started. The statement after the loop,
  which awaits the writes, is \<open>await_writes\<close> below.
\<close>

fun generateTranslations ::
  "madge_fn \<Rightarrow> md5_fn \<Rightarrow> string \<Rightarrow> string \<Rightarrow> paths \<Rightarrow> obj \<Rightarrow> json list
     \<Rightarrow> (string \<times> json) list \<times> (error + json list)" where
  "generateTranslations madge md5 lang domain paths [] translations = ([], Inr translations)"
| "generateTranslations madge md5 lang domain paths ((key, outFile) # manifest) translations =
     (if extname key \<noteq> ''.js''
        then generateTranslations madge md5 lang domain paths manifest translations
      else
        (case generateTranslations_entry madge md5 lang domain paths key outFile translations of
           Inl e \<Rightarrow> ([], Inl e)
         | Inr (translations', None) \<Rightarrow>
             generateTranslations madge md5 lang domain paths manifest translations'
         | Inr (translations', Some file) \<Rightarrow>
             (let (files, r) = generateTranslations madge md5 lang domain paths manifest translations'
              in (file # files, r))))"

section \<open>The project data\<close>

text \<open>
  \<^verbatim>\<open>getData\<close> derives the paths from the directory of the nearest package
  manifest and the temporary directory of the system.
\<close>

definition getData_paths :: "string \<Rightarrow> string \<Rightarrow> paths" where
  "getData_paths rootDir tmpdir =
     \<lparr>root = rootDir,
      src = path_join [rootDir, ''src''],
      dist = path_join [rootDir, ''dist''],
      languages = path_join [rootDir, ''languages''],
      views = path_join [rootDir, ''views''],
      temp = tmpdir\<rparr>"

section \<open>The top-level operations\<close>

text \<open>
  What a caller and a reader of the console see of an operation: the lines
  printed with \<^verbatim>\<open>console.error\<close>, and whether the operation returned or an error
  left it. The steps that touch the file system, the terminal or an external
  program are parameters that give the error the step raises, if any.
\<close>

datatype console_line = Message string | Logged error

datatype outcome = Returned | Raised error

record op_run =
  console :: "console_line list"
  outcome :: outcome

definition caught :: "string \<Rightarrow> error + 'a \<Rightarrow> op_run" where
  "caught message body =
     (case body of
        Inl e \<Rightarrow> \<lparr>console = [Message message, Logged e], outcome = Returned\<rparr>
      | Inr _ \<Rightarrow> \<lparr>console = [], outcome = Returned\<rparr>)"

text \<open>Awaiting steps one after the other, and \<^verbatim>\<open>Promise.all\<close> over steps started
  together, reported in the order in which they were started.\<close>

fun first_error :: "error option list \<Rightarrow> error + unit" where
  "first_error [] = Inr ()"
| "first_error (None # rs) = first_error rs"
| "first_error (Some e # rs) = Inl e"

subsection \<open>make-json\<close>

text \<open>
  The whole body of \<^verbatim>\<open>makeJson\<close> is inside its \<^verbatim>\<open>try\<close>.
  \<^verbatim>\<open>getOriginalTranslations\<close> (the external localisation tool and the reading of
  its output) and \<^verbatim>\<open>getAssetsManifest\<close> are given by their results: the fragments
  grouped by locale, and the manifest. A manifest that is not an object has no
  key with the extension \<^verbatim>\<open>.js\<close>. \<open>env_writeFile\<close> gives the error with which the
  write of a file fails, if it does.
\<close>

record json_env =
  env_getData :: "error + paths"
  env_ensureDir :: "string \<Rightarrow> error option"
  env_readdir :: readdir_fn
  env_readFile :: readFile_fn
  env_getOriginalTranslations :: "string \<Rightarrow> string \<Rightarrow> error + (string \<times> json list) list"
  env_getAssetsManifest :: "string \<Rightarrow> error + json"
  env_madge :: madge_fn
  env_md5 :: md5_fn
  env_writeFile :: "string \<Rightarrow> error option"

fun manifest_entries :: "json \<Rightarrow> obj" where
  "manifest_entries (JObj kvs) = kvs"
| "manifest_entries v = []"

text \<open>
  The end of \<^verbatim>\<open>generateTranslations\<close>. When the loop has finished,
  \<^verbatim>\<open>Promise.all\<close> awaits the writes, and the failure of a write is the failure
  of \<^verbatim>\<open>generateTranslations\<close>. When the loop has raised, the writes it had
  started are awaited by nothing: the first component is what
  \<^verbatim>\<open>generateTranslations\<close> settles with, the second the errors of the writes that
  nothing awaits, which no handler of the program sees.
\<close>

definition await_writes ::
  "(string \<Rightarrow> error option) \<Rightarrow> (string \<times> json) list \<times> (error + json list)
     \<Rightarrow> (error + unit) \<times> error list" where
  "await_writes writeFile r =
     (case snd r of
        Inl e \<Rightarrow> (Inl e, List.map_filter (\<lambda>(file, catalog). writeFile file) (fst r))
      | Inr translations \<Rightarrow> (first_error (map (\<lambda>(file, catalog). writeFile file) (fst r)), []))"

text \<open>
  The body of the \<^verbatim>\<open>try\<close>: the files handed to \<^verbatim>\<open>fs.writeFile\<close>, the errors of
  the writes that nothing awaits, and the error that reaches the handler, if
  any.
\<close>

definition makeJson_body :: "json_env \<Rightarrow> (string \<times> json) list \<times> error list \<times> (error + unit)" where
  "makeJson_body env =
     (case env_getData env of
        Inl e \<Rightarrow> ([], [], Inl e)
      | Inr paths \<Rightarrow>
          (case first_error (map (env_ensureDir env)
                  [root paths, src paths, dist paths, languages paths, views paths, temp paths]) of
             Inl e \<Rightarrow> ([], [], Inl e)
           | Inr _ \<Rightarrow>
               (case extractDomain (env_readdir env) (env_readFile env) (dist paths) of
                  Inl e \<Rightarrow> ([], [], Inl e)
                | Inr domain \<Rightarrow>
                    (case env_getOriginalTranslations env (languages paths) (temp paths) of
                       Inl e \<Rightarrow> ([], [], Inl e)
                     | Inr originalTranslations \<Rightarrow>
                         (case env_getAssetsManifest env (dist paths) of
                            Inl e \<Rightarrow> ([], [], Inl e)
                          | Inr manifest \<Rightarrow>
                              (let runs = map (\<lambda>(lang, translations).
                                           generateTranslations (env_madge env) (env_md5 env) lang domain paths
                                             (manifest_entries manifest) translations)
                                         originalTranslations;
                                   settled = map (await_writes (env_writeFile env)) runs
                               in (concat (map fst runs),
                                   concat (map snd settled),
                                   first_error (map (\<lambda>r. case fst r of Inl e \<Rightarrow> Some e | Inr _ \<Rightarrow> None)
                                                  settled))))))))"

record json_run =
  json_files :: "(string \<times> json) list"
  json_unawaited :: "error list"
  json_report :: op_run

definition makeJson :: "json_env \<Rightarrow> json_run" where
  "makeJson env =
     (case makeJson_body env of
        (handed, unawaited, r) \<Rightarrow>
          \<lparr>json_files = handed, json_unawaited = unawaited,
           json_report = caught ''Could not generate translations'' r\<rparr>)"

subsection \<open>make-pot\<close>

text \<open>
  \<^verbatim>\<open>getData\<close> is awaited before the \<^verbatim>\<open>try\<close>. The \<^verbatim>\<open>finally\<close> block restores the
  sources and swallows the errors of its own steps, so it changes neither the
  console nor the outcome. \<open>strip_scope\<close> removes a leading scope, an at sign
  with word characters and a slash, from the package name.
\<close>

definition is_word :: "char \<Rightarrow> bool" where
  "is_word c \<longleftrightarrow>
     c \<in> set ''abcdefghijklmnopqrstuvwxyzABCDEFGHIJKLMNOPQRSTUVWXYZ0123456789_''"

definition strip_scope :: "string \<Rightarrow> string" where
  "strip_scope name =
     (case name of
        c # cs \<Rightarrow>
          (if c = CHR ''@'' \<and> takeWhile is_word cs \<noteq> []
              \<and> prefix ''/'' (dropWhile is_word cs)
           then drop 1 (dropWhile is_word cs) else name)
      | [] \<Rightarrow> [])"

record pot_env =
  pot_getData :: "error + obj \<times> paths"
  pot_copy :: "string \<Rightarrow> string \<Rightarrow> error option"
  pot_replace :: "string \<Rightarrow> error option"
  pot_execa :: "string list \<Rightarrow> error option"

definition makePot_body :: "pot_env \<Rightarrow> obj \<Rightarrow> paths \<Rightarrow> error + unit" where
  "makePot_body env pkg paths =
     (case pot_copy env (src paths) (path_join [temp paths, ''src'']) of
        Some e \<Rightarrow> Inl e
      | None \<Rightarrow>
          (case pot_replace env (path_join [src paths, ''**/*.js'']) of
             Some e \<Rightarrow> Inl e
           | None \<Rightarrow>
               (case map_of pkg ''name'' of
                  Some (JStr name) \<Rightarrow>
                    first_error
                      [pot_execa env
                         [''wp'', ''i18n'', ''make-pot'', ''.'',
                          path_join [dist paths, strip_scope name @ ''.pot''],
                          ''--exclude=dist'']]
                | _ \<Rightarrow> Inl TypeError)))"

definition makePot :: "pot_env \<Rightarrow> op_run" where
  "makePot env =
     (case pot_getData env of
        Inl e \<Rightarrow> \<lparr>console = [], outcome = Raised e\<rparr>
      | Inr (pkg, paths) \<Rightarrow>
          caught ''An error occured while generating a .pot-file'' (makePot_body env pkg paths))"

subsection \<open>generate-plugin\<close>

text \<open>
  The prompt and \<^verbatim>\<open>getData\<close> are awaited before the \<^verbatim>\<open>try\<close>, and so is the
  computation of the plugin directory, \<^verbatim>\<open>path.join\<close> of
  \<^verbatim>\<open>data.paths.projectRoot\<close> and two more segments. The paths of \<^verbatim>\<open>getData\<close> have
  no \<^verbatim>\<open>projectRoot\<close>, so \<^verbatim>\<open>path.join\<close> receives \<^verbatim>\<open>undefined\<close> and raises a
  TypeError: the \<^verbatim>\<open>try\<close> block, which creates the directories and writes the
  files, is not reached.
\<close>

record plugin_env =
  plugin_prompt :: "error + obj"
  plugin_getData :: "error + obj \<times> paths"

definition generatePlugin :: "plugin_env \<Rightarrow> op_run" where
  "generatePlugin env =
     (case plugin_prompt env of
        Inl e \<Rightarrow> \<lparr>console = [], outcome = Raised e\<rparr>
      | Inr answers \<Rightarrow>
          (case plugin_getData env of
             Inl e \<Rightarrow> \<lparr>console = [], outcome = Raised e\<rparr>
           | Inr (pkg, paths) \<Rightarrow> \<lparr>console = [], outcome = Raised TypeError\<rparr>))"

subsection \<open>make-aliases\<close>

text \<open>\<^verbatim>\<open>s.indexOf(pat) > -1\<close>.\<close>

fun includes_str :: "string \<Rightarrow> string \<Rightarrow> bool" where
  "includes_str pat [] = (pat = [])"
| "includes_str pat (c # cs) = (prefix pat (c # cs) \<or> includes_str pat cs)"

text \<open>
  \<^verbatim>\<open>Object.keys\<close> and \<^verbatim>\<open>Object.entries\<close> of a value that may be absent: they raise
  on \<^verbatim>\<open>undefined\<close> and \<^verbatim>\<open>null\<close>, enumerate the indices of an array and of a
  string, and find nothing in a number or a boolean.
\<close>

fun object_entries :: "json option \<Rightarrow> error + obj" where
  "object_entries None = Inl TypeError"
| "object_entries (Some JNull) = Inl TypeError"
| "object_entries (Some (JObj kvs)) = Inr kvs"
| "object_entries (Some (JArr xs)) = Inr (zip (map show_nat [0..<length xs]) xs)"
| "object_entries (Some (JStr s)) =
     Inr (zip (map show_nat [0..<length s]) (map (\<lambda>c. JStr [c]) s))"
| "object_entries (Some (JBool b)) = Inr []"
| "object_entries (Some (JNum n)) = Inr []"

definition object_keys :: "json option \<Rightarrow> error + string list" where
  "object_keys v = (case object_entries v of Inl e \<Rightarrow> Inl e | Inr kvs \<Rightarrow> Inr (map fst kvs))"

text \<open>\<^verbatim>\<open>Array.prototype.map\<close> with a callback that may raise.\<close>

fun array_map :: "('a \<Rightarrow> error + 'b) \<Rightarrow> 'a list \<Rightarrow> error + 'b list" where
  "array_map f [] = Inr []"
| "array_map f (x # xs) =
     (case f x of
        Inl e \<Rightarrow> Inl e
      | Inr y \<Rightarrow> (case array_map f xs of Inl e \<Rightarrow> Inl e | Inr ys \<Rightarrow> Inr (y # ys)))"

text \<open>\<^verbatim>\<open>camelCaseDash\<close>: a dash followed by a lower-case letter becomes that
  letter in upper case.\<close>

definition toUpperAscii :: "char \<Rightarrow> char" where
  "toUpperAscii c =
     (case map_of (zip ''abcdefghijklmnopqrstuvwxyz'' ''ABCDEFGHIJKLMNOPQRSTUVWXYZ'') c of
        Some d \<Rightarrow> d | None \<Rightarrow> c)"

fun camelCaseDash :: "string \<Rightarrow> string" where
  "camelCaseDash (c # d # cs) =
     (if c = CHR ''-'' \<and> d \<in> set ''abcdefghijklmnopqrstuvwxyz''
      then toUpperAscii d # camelCaseDash cs
      else c # camelCaseDash (d # cs))"
| "camelCaseDash cs = cs"

definition template :: "string \<Rightarrow> string" where
  "template moduleExport =
     ''/* eslint-disable strict */'' @ [CHR 0x0A, CHR 0x27] @ ''use strict'' @ [CHR 0x27]
     @ '';'' @ [CHR 0x0A] @ ''module.exports = '' @ moduleExport @ '';'' @ [CHR 0x0A]"

record dependency =
  name :: string
  filename :: string
  content :: string

text \<open>
  The callback that turns a dependency of the \<^verbatim>\<open>@wordpress\<close> namespace into its
  alias file. The module name is the second piece of the dependency's name split
  at the slashes; without one, \<^verbatim>\<open>camelCaseDash\<close> is called on \<^verbatim>\<open>undefined\<close> and
  raises a TypeError.
\<close>

definition wordpress_dependency :: "string \<Rightarrow> error + dependency" where
  "wordpress_dependency dep =
     (case split_on slash dep of
        first # moduleName # rest \<Rightarrow>
          Inr \<lparr>name = dep,
               filename = ''wordpress-'' @ moduleName @ ''.js'',
               content = template (''window.wp.'' @ camelCaseDash moduleName)\<rparr>
      | _ \<Rightarrow> Inl TypeError)"

definition alias_dependencies :: "string list \<Rightarrow> error + dependency list" where
  "alias_dependencies keys =
     (case array_map wordpress_dependency (filter (includes_str ''@wordpress'') keys) of
        Inl e \<Rightarrow> Inl e
      | Inr dependencies \<Rightarrow>
          Inr (dependencies
               @ (if ''react'' \<in> set keys
                  then [\<lparr>name = ''react'', filename = ''react.js'',
                         content = template ''window.React''\<rparr>] else [])
               @ (if ''lodash'' \<in> set keys
                  then [\<lparr>name = ''lodash'', filename = ''lodash.js'',
                         content = template ''window.lodash''\<rparr>] else [])))"

text \<open>The fresh copy of the alias mapping without the keys of the namespace.\<close>

fun fresh_alias :: "obj \<Rightarrow> obj \<Rightarrow> obj" where
  "fresh_alias acc [] = acc"
| "fresh_alias acc ((key, v) # entries) =
     (if includes_str ''@wordpress'' key then fresh_alias acc entries
      else fresh_alias (AList.update key v acc) entries)"

definition previous_alias :: "obj \<Rightarrow> obj" where
  "previous_alias pkg =
     (if truthy (map_of pkg ''alias'')
      then (case object_entries (map_of pkg ''alias'') of Inr kvs \<Rightarrow> kvs | Inl e \<Rightarrow> [])
      else [])"

datatype file_content = Text string | Json obj

record alias_env =
  alias_getData :: "error + obj \<times> paths"
  alias_readdir :: readdir_fn
  alias_unlink :: "string \<Rightarrow> error option"
  alias_writeFile :: "string \<Rightarrow> error option"

text \<open>The loop that enters every dependency in the mapping and writes its file.\<close>

fun write_aliases ::
  "alias_env \<Rightarrow> string \<Rightarrow> dependency list \<Rightarrow> obj
     \<Rightarrow> (string \<times> file_content) list \<times> (error + obj)" where
  "write_aliases env aliases [] alias = ([], Inr alias)"
| "write_aliases env aliases (d # dependencies) alias =
     (case alias_writeFile env (path_join [aliases, filename d]) of
        Some e \<Rightarrow> ([], Inl e)
      | None \<Rightarrow>
          (let (files, r) =
                 write_aliases env aliases dependencies
                   (AList.update (name d) (JStr (''./src/alias'' @ ''/'' @ filename d)) alias)
           in ((path_join [aliases, filename d], Text (content d)) # files, r)))"

definition removePreviousWpAliases :: "alias_env \<Rightarrow> string \<Rightarrow> string list \<times> (error + unit)" where
  "removePreviousWpAliases env aliasesDir =
     (case alias_readdir env aliasesDir of
        Inl e \<Rightarrow> ([], Inl e)
      | Inr listing \<Rightarrow>
          (let wpAliases = map (\<lambda>f. path_join [aliasesDir, f])
                             (filter (includes_str ''wordpress'') listing)
           in (filter (\<lambda>f. alias_unlink env f = None) wpAliases,
               first_error (map (alias_unlink env) wpAliases))))"

text \<open>
  The body of the \<^verbatim>\<open>try\<close> of \<^verbatim>\<open>makeAliases\<close>, which is the whole function: the
  files removed, the files written (the last one is the package manifest with
  its new alias mapping), and the error that reaches the handler, if any.
\<close>

definition makeAliases_body ::
  "alias_env \<Rightarrow> string list \<times> (string \<times> file_content) list \<times> (error + unit)" where
  "makeAliases_body env =
     (case alias_getData env of
        Inl e \<Rightarrow> ([], [], Inl e)
      | Inr (pkg, paths) \<Rightarrow>
          (let aliases = path_join [root paths, ''./src/alias''];
               package = path_join [root paths, ''./package.json'']
           in case removePreviousWpAliases env aliases of
                (rm, Inl e) \<Rightarrow> (rm, [], Inl e)
              | (rm, Inr _) \<Rightarrow>
                  (case object_keys (map_of pkg ''dependencies'') of
                     Inl e \<Rightarrow> (rm, [], Inl e)
                   | Inr keys \<Rightarrow>
                       (case alias_dependencies keys of
                          Inl e \<Rightarrow> (rm, [], Inl e)
                        | Inr dependencies \<Rightarrow>
                            (case write_aliases env aliases dependencies
                                    (fresh_alias [] (previous_alias pkg)) of
                               (fs, Inl e) \<Rightarrow> (rm, fs, Inl e)
                             | (fs, Inr alias) \<Rightarrow>
                                 (case alias_writeFile env package of
                                    Some e \<Rightarrow> (rm, fs, Inl e)
                                  | None \<Rightarrow>
                                      (rm,
                                       fs @ [(package,
                                                Json (AList.update ''alias'' (JObj alias) pkg))],
                                       Inr ())))))))"

text \<open>
  The run of \<^verbatim>\<open>makeAliases\<close>: the files removed, the files written, and the
  console and outcome. The handler prints the error alone.
\<close>

record alias_run =
  removed :: "string list"
  files :: "(string \<times> file_content) list"
  run :: op_run

definition makeAliases :: "alias_env \<Rightarrow> alias_run" where
  "makeAliases env =
     (case makeAliases_body env of
        (rm, fs, r) \<Rightarrow>
          \<lparr>removed = rm, files = fs,
           run = (case r of
                    Inl e \<Rightarrow> \<lparr>console = [Logged e], outcome = Returned\<rparr>
                  | Inr _ \<Rightarrow> \<lparr>console = [], outcome = Returned\<rparr>)\<rparr>)"

section \<open>Notions used to state the properties\<close>

text \<open>A path segment that \<^verbatim>\<open>path.join\<close> keeps as it is.\<close>

definition plain :: "string \<Rightarrow> bool" where
  "plain s \<longleftrightarrow> s \<noteq> [] \<and> slash \<notin> set s \<and> s \<noteq> ''.'' \<and> s \<noteq> ''..''"

text \<open>Strings, numbers, booleans and \<^verbatim>\<open>null\<close>; arrays of \<open>n\<close> of them.\<close>

fun scalar :: "json \<Rightarrow> bool" where
  "scalar (JArr xs) = False"
| "scalar (JObj kvs) = False"
| "scalar v = True"

definition flat_array :: "nat \<Rightarrow> json \<Rightarrow> bool" where
  "flat_array n v = (case v of JArr xs \<Rightarrow> length xs = n \<and> list_all scalar xs | _ \<Rightarrow> False)"

text \<open>The table \<^verbatim>\<open>locale_data[d]\<close> of a catalog, its keys and its values.\<close>

fun table_of :: "string \<Rightarrow> json \<Rightarrow> obj option" where
  "table_of d (JObj catalog) =
     (case map_of catalog ''locale_data'' of
        Some (JObj locale_data) \<Rightarrow>
          (case map_of locale_data d of Some (JObj table) \<Rightarrow> Some table | _ \<Rightarrow> None)
      | _ \<Rightarrow> None)"
| "table_of d v = None"

definition table_keys :: "string \<Rightarrow> json \<Rightarrow> string set" where
  "table_keys d f = (case table_of d f of Some table \<Rightarrow> fst ` set table | None \<Rightarrow> {})"

definition value_at :: "string \<Rightarrow> string \<Rightarrow> json \<Rightarrow> json option" where
  "value_at d k f = (case table_of d f of Some table \<Rightarrow> map_of table k | None \<Rightarrow> None)"

text \<open>
  A catalog as \<^verbatim>\<open>JSON.parse\<close> gives it, with a table for the domain \<open>d\<close>: an
  object whose \<^verbatim>\<open>locale_data\<close> is an object that holds an object under \<open>d\<close>, none
  of the three with a key twice.
\<close>

definition catalog_for :: "string \<Rightarrow> json \<Rightarrow> bool" where
  "catalog_for d f =
     (case f of
        JObj catalog \<Rightarrow>
          distinct (map fst catalog) \<and>
          (case map_of catalog ''locale_data'' of
             Some (JObj locale_data) \<Rightarrow>
               distinct (map fst locale_data) \<and>
               (case map_of locale_data d of
                  Some (JObj table) \<Rightarrow> distinct (map fst table)
                | _ \<Rightarrow> False)
           | _ \<Rightarrow> False)
      | _ \<Rightarrow> False)"

text \<open>A catalog whose top-level domain is \<open>d\<close>.\<close>

definition has_domain :: "string \<Rightarrow> json \<Rightarrow> bool" where
  "has_domain d f =
     (case f of JObj catalog \<Rightarrow> map_of catalog ''domain'' = Some (JStr d) | _ \<Rightarrow> False)"

text \<open>
  A catalog of the domain \<open>d\<close> in the format of the localisation tool (Jed). An
  object as \<^verbatim>\<open>JSON.parse\<close> gives it has no key twice; \<open>plain_object\<close> also
  excludes the key \<^verbatim>\<open>__proto__\<close>. The fields of the catalog other than
  \<^verbatim>\<open>locale_data\<close> are strings, numbers, booleans or null, and \<^verbatim>\<open>domain\<close> is \<open>d\<close>;
  \<^verbatim>\<open>locale_data\<close> is an object of tables, with one under \<open>d\<close>. In a table the
  metadata entry, under the empty key, is an object of such values, and every
  other entry is such a value or an array of them. So under one key two
  catalogs never hold an object and an array.
\<close>

definition plain_object :: "obj \<Rightarrow> bool" where
  "plain_object ob \<longleftrightarrow> distinct (map fst ob) \<and> ''__proto__'' \<notin> set (map fst ob)"

fun flat :: "json \<Rightarrow> bool" where
  "flat (JArr xs) = list_all scalar xs"
| "flat (JObj kvs) = False"
| "flat v = True"

definition jed_table :: "obj \<Rightarrow> bool" where
  "jed_table table \<longleftrightarrow>
     plain_object table
     \<and> (case map_of table [] of
          Some (JObj meta) \<Rightarrow> plain_object meta \<and> list_all (\<lambda>(k, v). scalar v) meta
        | _ \<Rightarrow> False)
     \<and> list_all (\<lambda>(k, v). k \<noteq> [] \<longrightarrow> flat v) table"

definition jed_catalog :: "string \<Rightarrow> json \<Rightarrow> bool" where
  "jed_catalog d f =
     (case f of
        JObj catalog \<Rightarrow>
          plain_object catalog
          \<and> map_of catalog ''domain'' = Some (JStr d)
          \<and> list_all (\<lambda>(k, v). k \<noteq> ''locale_data'' \<longrightarrow> scalar v) catalog
          \<and> (case map_of catalog ''locale_data'' of
               Some (JObj locale_data) \<Rightarrow>
                 plain_object locale_data
                 \<and> list_all (\<lambda>(k, v). case v of JObj table \<Rightarrow> jed_table table | _ \<Rightarrow> False)
                       locale_data
                 \<and> map_of locale_data d \<noteq> None
             | _ \<Rightarrow> False)
      | _ \<Rightarrow> False)"

text \<open>
  The values that the fragments hold for one key, in order, with \<open>None\<close> for a
  fragment without the key: \<open>merged_value\<close> merges them from left to right into
  what the destination holds, \<open>last_present\<close> is the last of them.
\<close>

fun merged_value :: "json option \<Rightarrow> json option list \<Rightarrow> json option" where
  "merged_value acc [] = acc"
| "merged_value acc (None # vs) = merged_value acc vs"
| "merged_value acc (Some v # vs) = merged_value (Some (mergeProp acc v)) vs"

fun last_present :: "json option list \<Rightarrow> json option" where
  "last_present [] = None"
| "last_present (v # vs) = (case last_present vs of Some w \<Rightarrow> Some w | None \<Rightarrow> v)"

text \<open>The \<^verbatim>\<open>source\<close> of a catalog, when it is a string.\<close>

definition catalog_source :: "json \<Rightarrow> string option" where
  "catalog_source f =
     (case f of
        JObj catalog \<Rightarrow> (case map_of catalog ''source'' of Some (JStr s) \<Rightarrow> Some s | _ \<Rightarrow> None)
      | _ \<Rightarrow> None)"

text \<open>The module name of a dependency: the second piece of its name.\<close>

definition moduleName_of :: "string \<Rightarrow> string" where
  "moduleName_of dep = (case split_on slash dep of first # moduleName # rest \<Rightarrow> moduleName | _ \<Rightarrow> [])"

subsection \<open>A project used in the examples\<close>

definition project :: paths where
  "project = getData_paths ''/proj'' ''/tmp''"

definition fragment :: "string \<Rightarrow> string \<Rightarrow> string \<Rightarrow> obj \<Rightarrow> json" where
  "fragment source d lang messages =
     JObj [(''source'', JStr source), (''domain'', JStr d),
           (''locale_data'',
            JObj [(d, JObj (([], JObj [(''domain'', JStr d), (''lang'', JStr lang)]) # messages))])]"

text \<open>Two entrypoints that import the same module.\<close>

definition shared_madge :: madge_fn where
  "shared_madge srcFile =
     (if srcFile = ''/proj/src/a.js'' then Inr [''a.js'', ''shared.js'']
      else if srcFile = ''/proj/src/b.js'' then Inr [''b.js'', ''shared.js'']
      else Inl (External ''madge''))"

text \<open>A stand-in for the digest.\<close>

definition digest :: md5_fn where
  "digest s = map (\<lambda>c. if c = slash then CHR ''_'' else c) s"

text \<open>The alias that the loop enters for a dependency.\<close>

definition alias_target :: "dependency \<Rightarrow> json" where
  "alias_target d = JStr (''./src/alias'' @ ''/'' @ filename d)"

subsection \<open>Environments used in the examples\<close>

text \<open>A file system on which every step of \<^verbatim>\<open>makeAliases\<close> succeeds, and two package
  manifests.\<close>

definition quiet_alias_env :: "obj \<Rightarrow> alias_env" where
  "quiet_alias_env pkg =
     \<lparr>alias_getData = Inr (pkg, project),
      alias_readdir = (\<lambda>d. Inr [''wordpress-data.js'', ''index.js'']),
      alias_unlink = (\<lambda>f. None),
      alias_writeFile = (\<lambda>f. None)\<rparr>"

definition react_package :: obj where
  "react_package =
     [(''name'', JStr ''plugin''),
      (''dependencies'', JObj [(''react'', JStr ''^16.8.0'')]),
      (''alias'', JObj [(''react'', JStr ''preact/compat'')])]"

definition wordpress_package :: obj where
  "wordpress_package =
     [(''name'', JStr ''plugin''),
      (''dependencies'', JObj [(''@wordpress/block-editor'', JStr ''^2.0.0''), (''lodash'', JStr ''^4.17.11'')]),
      (''alias'', JObj [(''@wordpress/data'', JStr ''./src/alias/wordpress-data.js''),
                        (''jquery'', JStr ''./src/jquery.js'')])]"

text \<open>
  A project with one template file, one locale with one fragment and one
  entrypoint, in which every step of \<^verbatim>\<open>makeJson\<close> but the write succeeds.
\<close>

definition json_env_of :: "(string \<Rightarrow> error option) \<Rightarrow> json_env" where
  "json_env_of writeFile =
     \<lparr>env_getData = Inr project,
      env_ensureDir = (\<lambda>p. None),
      env_readdir = (\<lambda>d. Inr [''plugin.pot'']),
      env_readFile = (\<lambda>f. Inr (CHR 0x22 # ''X-Domain: myplugin'' @ [CHR 0x5C, CHR ''n'', CHR 0x22])),
      env_getOriginalTranslations =
        (\<lambda>langDir tempDir.
           Inr [(''sv_SE'', [fragment ''src/a.js'' ''messages'' ''sv_SE'' [(''Hello'', JArr [JStr ''Hej''])]])]),
      env_getAssetsManifest = (\<lambda>d. Inr (JObj [(''a.js'', JStr ''a.1.js'')])),
      env_madge = shared_madge,
      env_md5 = digest,
      env_writeFile = writeFile\<rparr>"

text \<open>Environments in which one step fails.\<close>

definition failing_alias_env :: alias_env where
  "failing_alias_env =
     \<lparr>alias_getData = Inr (wordpress_package, project),
      alias_readdir = (\<lambda>d. Inl (External ''ENOENT'')),
      alias_unlink = (\<lambda>f. None),
      alias_writeFile = (\<lambda>f. None)\<rparr>"

definition pot_env_of :: "(error + obj \<times> paths) \<Rightarrow> (string \<Rightarrow> string \<Rightarrow> error option) \<Rightarrow> pot_env" where
  "pot_env_of r copy =
     \<lparr>pot_getData = r,
      pot_copy = copy,
      pot_replace = (\<lambda>glob. None),
      pot_execa = (\<lambda>args. None)\<rparr>"

section \<open>Properties\<close>

subsection \<open>Association lists and the merge\<close>

lemma mergeObj_keys: "fst ` set (mergeObj ob kvs) = fst ` set ob \<union> fst ` set kvs"
proof (induction kvs arbitrary: ob)
  case Nil
  then show ?case by simp
next
  case (Cons p kvs)
  obtain k v where p: "p = (k, v)" by (cases p)
  have "fst ` set (mergeObj ob (p # kvs))
        = fst ` set (AList.update k (mergeProp (map_of ob k) v) ob) \<union> fst ` set kvs"
    using Cons.IH p by simp
  also have "\<dots> = ({k} \<union> fst ` set ob) \<union> fst ` set kvs"
    by (simp only: dom_update)
  finally show ?case using p by auto
qed

lemma mergeObj_distinct: "distinct (map fst ob) \<Longrightarrow> distinct (map fst (mergeObj ob kvs))"
  by (induction kvs arbitrary: ob) (auto simp: distinct_update)

lemma mergeObj_absent: "k \<notin> fst ` set kvs \<Longrightarrow> map_of (mergeObj ob kvs) k = map_of ob k"
  by (induction kvs arbitrary: ob) (auto simp: update_conv')

lemma mergeObj_value:
  "distinct (map fst kvs) \<Longrightarrow>
   map_of (mergeObj ob kvs) k =
     (case map_of kvs k of None \<Rightarrow> map_of ob k | Some v \<Rightarrow> Some (mergeProp (map_of ob k) v))"
proof (induction kvs arbitrary: ob)
  case Nil
  then show ?case by simp
next
  case (Cons p kvs)
  obtain k' v' where p: "p = (k', v')" by (cases p)
  show ?case
  proof (cases "k = k'")
    case True
    then have "k \<notin> fst ` set kvs" using Cons.prems p by auto
    then show ?thesis using True p by (simp add: mergeObj_absent update_conv')
  next
    case False
    then have "map_of (AList.update k' (mergeProp (map_of ob k') v') ob) k = map_of ob k"
      by (simp add: update_conv')
    then show ?thesis using Cons p False by (simp split: option.splits)
  qed
qed

lemma mergeProp_scalar: "scalar v \<Longrightarrow> mergeProp ov v = v"
  by (cases v) auto

lemma mergeArr_flat_Nil: "list_all scalar ys \<Longrightarrow> mergeArr [] ys = ys"
  by (induction ys) (auto simp: mergeProp_scalar)

lemma mergeArr_flat: "list_all scalar ys \<Longrightarrow> length xs \<le> length ys \<Longrightarrow> mergeArr xs ys = ys"
proof (induction ys arbitrary: xs)
  case Nil
  then show ?case by simp
next
  case (Cons y ys)
  then show ?case by (cases xs) (auto simp: mergeProp_scalar mergeArr_flat_Nil)
qed

lemma mergeProp_flat:
  assumes "flat_array n v" and "ov = None \<or> (\<exists>w. ov = Some w \<and> (flat_array n w \<or> scalar w))"
  shows "mergeProp ov v = v"
proof -
  from assms(1) obtain ys where v: "v = JArr ys" "length ys = n" "list_all scalar ys"
    by (auto simp: flat_array_def split: json.splits)
  from assms(2) show ?thesis
  proof
    assume "ov = None"
    then show ?thesis using v by (simp add: mergeArr_flat_Nil)
  next
    assume "\<exists>w. ov = Some w \<and> (flat_array n w \<or> scalar w)"
    then obtain w where w: "ov = Some w" "flat_array n w \<or> scalar w" by blast
    show ?thesis
    proof (cases w)
      case (JArr xs)
      then have "length xs = n" using w by (auto simp: flat_array_def)
      then show ?thesis using v w JArr by (simp add: mergeArr_flat)
    qed (use v w in \<open>simp_all add: mergeArr_flat_Nil\<close>)
  qed
qed

lemma merged_value_snoc:
  "merged_value acc (vs @ [x]) =
     (case x of None \<Rightarrow> merged_value acc vs | Some v \<Rightarrow> Some (mergeProp (merged_value acc vs) v))"
  by (induction acc vs rule: merged_value.induct) (auto split: option.splits)

lemma last_present_snoc:
  "last_present (vs @ [x]) = (case x of None \<Rightarrow> last_present vs | Some v \<Rightarrow> Some v)"
  by (induction vs) (auto split: option.splits)

lemma merged_value_None: "merged_value acc vs = None \<longleftrightarrow> acc = None \<and> last_present vs = None"
  by (induction acc vs rule: merged_value.induct) (auto split: option.splits)

lemma merged_value_scalar:
  "last_present vs = Some v \<Longrightarrow> scalar v \<Longrightarrow> merged_value acc vs = Some v"
proof (induction vs arbitrary: v rule: rev_induct)
  case Nil
  then show ?case by simp
next
  case (snoc x vs)
  then show ?case
    by (cases x) (auto simp: merged_value_snoc last_present_snoc mergeProp_scalar)
qed

lemma merged_value_flat:
  assumes "\<forall>w. Some w \<in> set (acc # vs) \<longrightarrow> flat_array n w"
  shows "merged_value acc vs = last_present (acc # vs)"
  using assms
proof (induction vs rule: rev_induct)
  case Nil
  then show ?case by (cases acc) auto
next
  case (snoc x vs)
  show ?case
  proof (cases x)
    case None
    then show ?thesis using snoc by (simp add: merged_value_snoc last_present_snoc)
  next
    case (Some v)
    have fv: "flat_array n v" using snoc.prems Some by simp
    have ih: "merged_value acc vs = last_present (acc # vs)" using snoc by simp
    have "merged_value acc vs = None \<or> (\<exists>w. merged_value acc vs = Some w \<and> flat_array n w)"
    proof (cases "merged_value acc vs")
      case None
      then show ?thesis by simp
    next
      case (Some w)
      then have "last_present (acc # vs) = Some w" using ih by simp
      moreover have "\<And>us u. last_present us = Some u \<Longrightarrow> Some u \<in> set us"
      proof -
        fix us :: "json option list" and u
        show "last_present us = Some u \<Longrightarrow> Some u \<in> set us"
          by (induction us) (auto split: option.splits)
      qed
      ultimately have "Some w \<in> set (acc # vs)" by blast
      then have "flat_array n w" using snoc.prems by auto
      then show ?thesis using Some by simp
    qed
    then have "mergeProp (merged_value acc vs) v = v"
      using fv by (intro mergeProp_flat[of n]) auto
    then show ?thesis using Some
      by (simp add: merged_value_snoc last_present_snoc)
  qed
qed


lemma catalog_forE:
  assumes "catalog_for d f"
  obtains c ld t where "f = JObj c" "distinct (map fst c)"
    "map_of c ''locale_data'' = Some (JObj ld)" "distinct (map fst ld)"
    "map_of ld d = Some (JObj t)" "distinct (map fst t)"
proof -
  from assms obtain c where f: "f = JObj c"
    by (cases f) (simp_all add: catalog_for_def)
  let ?inner = "\<lambda>ld. distinct (map fst ld) \<and>
      (case map_of ld d of Some (JObj t) \<Rightarrow> distinct (map fst t) | _ \<Rightarrow> False)"
  from assms f have dc: "distinct (map fst c)"
    and 1: "(case map_of c ''locale_data'' of Some (JObj ld) \<Rightarrow> ?inner ld | _ \<Rightarrow> False)"
    by (simp_all add: catalog_for_def)
  from 1 obtain x where x: "map_of c ''locale_data'' = Some x"
    by (cases "map_of c ''locale_data''") simp_all
  from 1 x obtain ld where ld: "x = JObj ld" by (cases x) simp_all
  from 1 x ld have dl: "distinct (map fst ld)"
    and 2: "(case map_of ld d of Some (JObj t) \<Rightarrow> distinct (map fst t) | _ \<Rightarrow> False)"
    by simp_all
  from 2 obtain y where y: "map_of ld d = Some y"
    by (cases "map_of ld d") simp_all
  from 2 y obtain t where t: "y = JObj t" by (cases y) simp_all
  from 2 y t have dt: "distinct (map fst t)" by simp
  show thesis using that[OF f dc] x ld dl y t dt by simp
qed

lemma catalog_for_table:
  assumes "catalog_for d f"
  obtains t where "table_of d f = Some t"
  using assms by (auto elim!: catalog_forE)

lemma merge_two_catalogs:
  assumes "catalog_for d (JObj c)" and "catalog_for d (JObj s)"
  shows "catalog_for d (JObj (mergeObj c s))"
    and "table_of d (JObj (mergeObj c s)) =
           (case (table_of d (JObj c), table_of d (JObj s)) of
              (Some t1, Some t2) \<Rightarrow> Some (mergeObj t1 t2) | _ \<Rightarrow> None)"
proof -
  from assms(1) obtain ld1 t1 where c: "distinct (map fst c)"
    "map_of c ''locale_data'' = Some (JObj ld1)" "distinct (map fst ld1)"
    "map_of ld1 d = Some (JObj t1)" "distinct (map fst t1)"
    by (auto elim!: catalog_forE)
  from assms(2) obtain ld2 t2 where s: "distinct (map fst s)"
    "map_of s ''locale_data'' = Some (JObj ld2)" "distinct (map fst ld2)"
    "map_of ld2 d = Some (JObj t2)" "distinct (map fst t2)"
    by (auto elim!: catalog_forE)
  have ld: "map_of (mergeObj c s) ''locale_data'' = Some (JObj (mergeObj ld1 ld2))"
    using c(2) s(1,2) by (simp add: mergeObj_value)
  have t: "map_of (mergeObj ld1 ld2) d = Some (JObj (mergeObj t1 t2))"
    using c(4) s(3,4) by (simp add: mergeObj_value)
  show "catalog_for d (JObj (mergeObj c s))"
    using ld t c(1,3,5) by (simp add: catalog_for_def mergeObj_distinct)
  show "table_of d (JObj (mergeObj c s)) =
           (case (table_of d (JObj c), table_of d (JObj s)) of
              (Some t1, Some t2) \<Rightarrow> Some (mergeObj t1 t2) | _ \<Rightarrow> None)"
    using ld t c(2,4) s(2,4) by simp
qed

lemma lodash_merge_catalogs:
  assumes "catalog_for d f" and "\<forall>g\<in>set gs. catalog_for d g"
  shows "catalog_for d (lodash_merge f gs)
       \<and> table_keys d (lodash_merge f gs) = table_keys d f \<union> (\<Union>g\<in>set gs. table_keys d g)
       \<and> (\<forall>k. value_at d k (lodash_merge f gs)
               = merged_value (value_at d k f) (map (value_at d k) gs))"
  using assms
proof (induction gs arbitrary: f)
  case Nil
  then show ?case by simp
next
  case (Cons g gs)
  from Cons.prems obtain c where f: "f = JObj c" by (auto elim: catalog_forE)
  from Cons.prems obtain s where g: "g = JObj s" by (auto elim: catalog_forE)
  have cf: "catalog_for d (JObj c)" and cg: "catalog_for d (JObj s)"
    using Cons.prems f g by simp_all
  obtain t1 where t1: "table_of d (JObj c) = Some t1" using cf by (rule catalog_for_table)
  obtain t2 where t2: "table_of d (JObj s) = Some t2" using cg by (rule catalog_for_table)
  have d2: "distinct (map fst t2)" using cg t2 by (auto elim!: catalog_forE)
  let ?m = "JObj (mergeObj c s)"
  have cm: "catalog_for d ?m" using cf cg by (rule merge_two_catalogs(1))
  have tm: "table_of d ?m = Some (mergeObj t1 t2)"
    using merge_two_catalogs(2)[OF cf cg] t1 t2 by simp
  have ih: "catalog_for d (lodash_merge ?m gs)
       \<and> table_keys d (lodash_merge ?m gs) = table_keys d ?m \<union> (\<Union>g\<in>set gs. table_keys d g)
       \<and> (\<forall>k. value_at d k (lodash_merge ?m gs)
               = merged_value (value_at d k ?m) (map (value_at d k) gs))"
    using Cons.IH[OF cm] Cons.prems by simp
  have keys: "table_keys d ?m = table_keys d f \<union> table_keys d g"
    unfolding f g table_keys_def tm t1 t2 by (simp add: mergeObj_keys)
  have vals: "\<And>k. merged_value (value_at d k ?m) (map (value_at d k) gs)
                 = merged_value (value_at d k f) (map (value_at d k) (g # gs))"
  proof -
    fix k
    have "value_at d k ?m =
        (case value_at d k g of None \<Rightarrow> value_at d k f
         | Some v \<Rightarrow> Some (mergeProp (value_at d k f) v))"
      unfolding f g value_at_def tm t1 t2 using d2
      by (simp add: mergeObj_value split: option.splits)
    then show "merged_value (value_at d k ?m) (map (value_at d k) gs)
                 = merged_value (value_at d k f) (map (value_at d k) (g # gs))"
      by (cases "value_at d k g") simp_all
  qed
  have lm: "lodash_merge f (g # gs) = lodash_merge ?m gs" using f g by simp
  show ?case unfolding lm using ih keys vals by auto
qed

subsection \<open>Paths\<close>

lemma split_on_not_Nil: "split_on c xs \<noteq> []"
  by (induction xs) (auto split: list.splits)

lemma split_on_append: "split_on c (xs @ c # ys) = split_on c xs @ split_on c ys"
proof (induction xs)
  case Nil
  then show ?case by simp
next
  case (Cons x xs)
  then show ?case
    using split_on_not_Nil[of c xs] by (cases "split_on c xs") auto
qed

lemma split_on_no_sep: "c \<notin> set xs \<Longrightarrow> split_on c xs = [xs]"
  by (induction xs) auto

lemma join_with_Cons: "ss \<noteq> [] \<Longrightarrow> join_with sep (s # ss) = s @ sep @ join_with sep ss"
  by (cases ss) auto

lemma join_with_append:
  "xs \<noteq> [] \<Longrightarrow> ys \<noteq> [] \<Longrightarrow> join_with sep (xs @ ys) = join_with sep xs @ sep @ join_with sep ys"
proof (induction xs)
  case Nil
  then show ?case by simp
next
  case (Cons x xs)
  show ?case
  proof (cases "xs = []")
    case True
    with Cons.prems show ?thesis by (simp add: join_with_Cons)
  next
    case False
    with Cons show ?thesis by (simp add: join_with_Cons)
  qed
qed

lemma split_join:
  "segs \<noteq> [] \<Longrightarrow> \<forall>s\<in>set segs. slash \<notin> set s \<Longrightarrow> split_on slash (join_with ''/'' segs) = segs"
proof (induction segs)
  case Nil
  then show ?case by simp
next
  case (Cons s segs)
  show ?case
  proof (cases "segs = []")
    case True
    with Cons.prems show ?thesis by (simp add: split_on_no_sep)
  next
    case False
    have "join_with ''/'' (s # segs) = s @ slash # join_with ''/'' segs"
      using False by (simp add: join_with_Cons slash_def)
    with Cons False show ?thesis by (simp add: split_on_append split_on_no_sep)
  qed
qed

lemma normalizeSegments_plain:
  "\<forall>s\<in>set segs. plain s \<Longrightarrow> normalizeSegments a res segs = res @ segs"
  by (induction segs arbitrary: res) (auto simp: plain_def)

lemma normalizeSegments_drop_empty:
  "normalizeSegments a res ([] # segs) = normalizeSegments a res segs"
  by simp

lemma join_with_nonempty: "segs \<noteq> [] \<Longrightarrow> last segs \<noteq> [] \<Longrightarrow> join_with sep segs \<noteq> []"
  by (induction sep segs rule: join_with.induct) auto

lemma last_join_with:
  "segs \<noteq> [] \<Longrightarrow> last segs \<noteq> [] \<Longrightarrow> last (join_with sep segs) = last (last segs)"
proof (induction segs)
  case Nil
  then show ?case by simp
next
  case (Cons s segs)
  show ?case
  proof (cases "segs = []")
    case True
    then show ?thesis by simp
  next
    case False
    then have ne: "join_with sep segs \<noteq> []"
      using Cons.prems by (simp add: join_with_nonempty)
    with Cons False show ?thesis by (simp add: join_with_Cons)
  qed
qed


lemma normalize_absolute:
  assumes "\<forall>s\<in>set segs. plain s"
  shows "normalize (slash # join_with ''/'' segs) = slash # join_with ''/'' segs"
proof (cases "segs = []")
  case True
  then show ?thesis by (simp add: normalize_def normalizeString_def slash_def)
next
  case False
  have noslash: "\<forall>s\<in>set segs. slash \<notin> set s" using assms by (simp add: plain_def)
  have lastne: "last segs \<noteq> []" using assms False by (auto simp: plain_def)
  have sp: "split_on slash (slash # join_with ''/'' segs) = [] # segs"
    using split_on_append[of slash "[]" "join_with ''/'' segs"] split_join[OF False noslash] by simp
  have ne: "join_with ''/'' segs \<noteq> []" using False lastne by (rule join_with_nonempty)
  have "last (last segs) \<noteq> slash"
    using assms False lastne by (metis last_in_set plain_def)
  then have lst: "last (slash # join_with ''/'' segs) \<noteq> slash"
    using ne False lastne by (simp add: last_join_with)
  show ?thesis
    using sp ne lst assms by (simp add: normalize_def normalizeString_def normalizeSegments_plain Let_def slash_def)
qed

lemma path_join_absolute:
  assumes "\<forall>s\<in>set xs. plain s" and "\<forall>s\<in>set ys. plain s" and "ys \<noteq> []"
  shows "path_join [slash # join_with ''/'' xs, join_with ''/'' ys] = slash # join_with ''/'' (xs @ ys)"
proof -
  have noslash: "\<forall>s\<in>set ys. slash \<notin> set s" "\<forall>s\<in>set xs. slash \<notin> set s"
    using assms by (simp_all add: plain_def)
  have lastne: "last ys \<noteq> []" using assms by (auto simp: plain_def)
  have ne: "join_with ''/'' ys \<noteq> []" using assms(3) lastne by (rule join_with_nonempty)
  let ?j = "(slash # join_with ''/'' xs) @ slash # join_with ''/'' ys"
  have joined: "join_with ''/'' (filter (\<lambda>a. a \<noteq> []) [slash # join_with ''/'' xs, join_with ''/'' ys]) = ?j"
    using ne by (simp add: slash_def)
  have spx: "normalizeSegments False [] (split_on slash (slash # join_with ''/'' xs)) = xs"
  proof (cases "xs = []")
    case True
    then show ?thesis by simp
  next
    case False
    have "split_on slash (slash # join_with ''/'' xs) = [] # xs"
      using split_on_append[of slash "[]" "join_with ''/'' xs"] split_join[OF False noslash(2)] by simp
    then show ?thesis using assms(1) by (simp add: normalizeSegments_plain)
  qed
  have nsapp: "\<And>a res us vs. normalizeSegments a res (us @ vs) = normalizeSegments a (normalizeSegments a res us) vs"
  proof -
    fix a res us vs show "normalizeSegments a res (us @ vs) = normalizeSegments a (normalizeSegments a res us) vs"
      by (induction us arbitrary: res) auto
  qed
  have sp: "normalizeSegments False [] (split_on slash ?j) = xs @ ys"
    using split_on_append[of slash "slash # join_with ''/'' xs" "join_with ''/'' ys"]
      split_join[OF assms(3) noslash(1)] spx assms(2)
    by (simp add: nsapp normalizeSegments_plain)
  have "last (last ys) \<noteq> slash"
    using assms lastne by (metis last_in_set plain_def)
  then have lst: "last ?j \<noteq> slash"
    using ne assms(3) lastne by (simp add: last_join_with)
  have ne2: "join_with ''/'' (xs @ ys) \<noteq> []"
    using assms(3) lastne by (intro join_with_nonempty) auto
  show ?thesis
    unfolding path_join_def joined
    using sp lst ne2 by (simp add: normalize_def normalizeString_def Let_def slash_def)
qed

lemma remove_first_prefix: "remove_first pat (pat @ rest) = rest"
proof (cases "pat @ rest")
  case Nil
  then show ?thesis by simp
next
  case (Cons a list)
  have "prefix pat (a # list)" unfolding Cons[symmetric] by simp
  then have "remove_first pat (a # list) = drop (length pat) (a # list)" by simp
  then show ?thesis unfolding Cons[symmetric] by simp
qed

lemma relativeFilename_getData:
  assumes "\<forall>s\<in>set rs. plain s" and "\<forall>s\<in>set os. plain s" and "os \<noteq> []"
  shows "relativeFilename (getData_paths (slash # join_with ''/'' rs) tmpdir)
           (path_join [dist (getData_paths (slash # join_with ''/'' rs) tmpdir), join_with ''/'' os])
         = ''dist/'' @ join_with ''/'' os"
proof -
  have pd: "plain ''dist''" by (simp add: plain_def slash_def)
  have d: "path_join [slash # join_with ''/'' rs, ''dist''] = slash # join_with ''/'' (rs @ [''dist''])"
    using path_join_absolute[of rs "[''dist'']"] assms(1) pd by simp
  have f: "path_join [slash # join_with ''/'' (rs @ [''dist'']), join_with ''/'' os]
            = slash # join_with ''/'' ((rs @ [''dist'']) @ os)"
    using assms pd by (intro path_join_absolute) auto
  have j: "join_with ''/'' ((rs @ [''dist'']) @ os) =
      (if rs = [] then [] else join_with ''/'' rs @ ''/'') @ ''dist/'' @ join_with ''/'' os"
    using assms(3) by (cases "rs = []") (simp_all add: join_with_append join_with_Cons)
  show ?thesis
  proof (cases "rs = []")
    case True
    then show ?thesis using d f j
      by (simp add: relativeFilename_def getData_paths_def slash_def)
  next
    case False
    have "slash # join_with ''/'' ((rs @ [''dist'']) @ os)
          = (slash # join_with ''/'' rs) @ (''/dist/'' @ join_with ''/'' os)"
      using j False by simp
    then show ?thesis using d f remove_first_prefix[of "slash # join_with ''/'' rs" "''/dist/'' @ join_with ''/'' os"]
      by (simp add: relativeFilename_def getData_paths_def slash_def)
  qed
qed


subsection \<open>The loop body and the re-domain step\<close>

lemma redomain_noop:
  "map_of m ''domain'' = Some (JStr domain) \<Longrightarrow> redomain domain m = Inr m"
  by (simp add: redomain_def)

lemma redomain_sets_domain:
  "redomain domain m = Inr m' \<Longrightarrow> m' = m \<or> map_of m' ''domain'' = Some (JStr domain)"
  by (auto simp: redomain_def Let_def update_conv' split: option.splits json.splits if_splits)

lemma redomain_idem:
  assumes "redomain domain m = Inr m'" shows "redomain domain m' = Inr m'"
proof -
  from redomain_sets_domain[OF assms] show ?thesis
  proof
    assume "m' = m" with assms show ?thesis by simp
  next
    assume "map_of m' ''domain'' = Some (JStr domain)"
    then show ?thesis by (rule redomain_noop)
  qed
qed

lemma array_filter_none:
  "\<forall>t\<in>set ts. f t = Inr False \<Longrightarrow> array_filter f ts = Inr []"
  by (induction ts) auto

lemma entry_unrelated:
  assumes "madge (path_join [src paths, key]) = Inr deps"
    and "\<forall>t\<in>set ts. isRelated (map (\<lambda>dep. path_join [src paths, dep]) deps) (root paths) t = Inr False"
  shows "generateTranslations_entry madge md5 lang domain paths key (JStr out) ts = Inr (ts, None)"
  using assms by (simp add: generateTranslations_entry_def array_filter_none)

lemma entry_file:
  assumes "generateTranslations_entry madge md5 lang domain paths key outFile ts = Inr (ts', Some (fname, catalog))"
  shows "\<exists>out c. outFile = JStr out \<and> catalog = JObj c
     \<and> map_of c ''source'' = Some (JStr (relativeFilename paths (path_join [dist paths, out])))
     \<and> fname = path_join [dist paths, domain @ ''-'' @ lang @ ''-'' @ md5 (relativeFilename paths (path_join [dist paths, out])) @ ''.json'']"
  using assms
  by (auto simp: generateTranslations_entry_def Let_def translationFileName_def update_conv'
      split: json.splits sum.splits list.splits)

lemma redomain_moves:
  assumes "map_of m ''domain'' = Some (JStr od)" and "od \<noteq> []" and "od \<noteq> domain"
    and "map_of m ''locale_data'' = Some (JObj ld)"
    and "map_of ld od = Some (JObj table)"
    and "map_of table [] = Some (JObj meta)"
  shows "\<exists>m' ld'. redomain domain m = Inr m'
     \<and> map_of m' ''domain'' = Some (JStr domain)
     \<and> map_of m' ''locale_data'' = Some (JObj ld')
     \<and> map_of ld' domain = Some (JObj (AList.update [] (JObj (AList.update ''domain'' (JStr domain) meta)) table))
     \<and> map_of ld' od = None
     \<and> (\<forall>k. k \<noteq> od \<and> k \<noteq> domain \<longrightarrow> map_of ld' k = map_of ld k)
     \<and> (\<forall>k. k \<noteq> ''domain'' \<and> k \<noteq> ''locale_data'' \<longrightarrow> map_of m' k = map_of m k)"
  using assms by (simp add: redomain_def Let_def update_conv' delete_conv')

lemma redomain_falsy: "\<not> truthy (map_of m ''domain'') \<Longrightarrow> redomain domain m = Inr m"
  by (cases "map_of m ''domain''") (simp_all add: redomain_def)

text \<open>
  Every file of a run of \<^verbatim>\<open>generateTranslations\<close> is the file that the loop body
  emits at an entry of the manifest whose key has the extension \<^verbatim>\<open>.js\<close>.
\<close>

lemma generateTranslations_files:
  "file \<in> set (fst (generateTranslations madge md5 lang domain paths manifest ts)) \<Longrightarrow>
   \<exists>key outFile before after.
     (key, outFile) \<in> set manifest \<and> extname key = ''.js''
     \<and> generateTranslations_entry madge md5 lang domain paths key outFile before
         = Inr (after, Some file)"
proof (induction manifest arbitrary: ts)
  case Nil
  then show ?case by simp
next
  case (Cons entry manifest)
  obtain key outFile where entry: "entry = (key, outFile)" by (cases entry)
  have later: ?case
    if "file \<in> set (fst (generateTranslations madge md5 lang domain paths manifest ts'))" for ts'
  proof -
    from Cons.IH[OF that] obtain k v b a where "(k, v) \<in> set manifest" "extname k = ''.js''"
      "generateTranslations_entry madge md5 lang domain paths k v b = Inr (a, Some file)"
      by blast
    moreover from this have "(k, v) \<in> set (entry # manifest)" by simp
    ultimately show ?thesis by blast
  qed
  show ?case
  proof (cases "extname key = ''.js''")
    case False
    then have "file \<in> set (fst (generateTranslations madge md5 lang domain paths manifest ts))"
      using Cons.prems entry by simp
    then show ?thesis by (rule later)
  next
    case True
    show ?thesis
    proof (cases "generateTranslations_entry madge md5 lang domain paths key outFile ts")
      case (Inl e)
      then show ?thesis using Cons.prems entry True by simp
    next
      case (Inr r)
      obtain ts' emitted where r: "r = (ts', emitted)" by (cases r)
      show ?thesis
      proof (cases emitted)
        case None
        then have "file \<in> set (fst (generateTranslations madge md5 lang domain paths manifest ts'))"
          using Cons.prems entry True Inr r by simp
        then show ?thesis by (rule later)
      next
        case (Some f)
        then have "file = f \<or> file \<in> set (fst (generateTranslations madge md5 lang domain paths manifest ts'))"
          using Cons.prems entry True Inr r by (auto split: prod.splits)
        then show ?thesis
        proof
          assume "file = f"
          then have "generateTranslations_entry madge md5 lang domain paths key outFile ts
              = Inr (ts', Some file)"
            using Inr r Some by simp
          moreover have "(key, outFile) \<in> set (entry # manifest)" using entry by simp
          ultimately show ?thesis using True by blast
        next
          assume "file \<in> set (fst (generateTranslations madge md5 lang domain paths manifest ts'))"
          then show ?thesis by (rule later)
        qed
      qed
    qed
  qed
qed

text \<open>The flag \<^verbatim>\<open>i\<close> covers the whole expression: both markers match in either case.\<close>

lemma x_domain_match_ignores_case:
  "x_domain_match (CHR 0x22 # ''x-DOMAIN: foo'' @ [CHR 0x5C, CHR ''N'', CHR 0x22]) = Some ''foo''"
  by code_simp

lemmas path_eval = path_join_def normalize_def normalizeString_def slash_def dot_def
  extname_def basename_of_def getData_paths_def project_def

lemmas entry_eval = generateTranslations_entry_def redomain_def relativeFilename_def
  translationFileName_def first_related_def fragment_def shared_madge_def digest_def Let_def


subsection \<open>The alias mapping and the operations\<close>

lemma fresh_alias_value:
  "distinct (map fst entries) \<Longrightarrow>
   map_of (fresh_alias acc entries) k =
     (if includes_str ''@wordpress'' k then map_of acc k
      else (case map_of entries k of Some v \<Rightarrow> Some v | None \<Rightarrow> map_of acc k))"
proof (induction entries arbitrary: acc)
  case Nil
  then show ?case by simp
next
  case (Cons p entries)
  obtain key v where p: "p = (key, v)" by (cases p)
  have nk: "key \<notin> fst ` set entries" and d: "distinct (map fst entries)"
    using Cons.prems p by auto
  show ?case
  proof (cases "includes_str ''@wordpress'' key")
    case True
    then show ?thesis using Cons.IH[OF d] p by auto
  next
    case False
    have "map_of entries key = None" using nk by (simp add: map_of_eq_None_iff)
    then show ?thesis using Cons.IH[OF d, of "AList.update key v acc"] p False
      by (auto simp: update_conv' split: option.splits)
  qed
qed

lemma find_snoc:
  "find P (xs @ [x]) = (case find P xs of Some y \<Rightarrow> Some y | None \<Rightarrow> if P x then Some x else None)"
  by (induction xs) auto

lemma write_aliases_text:
  "write_aliases env aliases ds al = (fs, r) \<Longrightarrow> (p, Json x) \<notin> set fs"
proof (induction ds arbitrary: al fs r)
  case Nil
  then show ?case by simp
next
  case (Cons d ds)
  show ?case
  proof (cases "alias_writeFile env (path_join [aliases, filename d])")
    case (Some e)
    then show ?thesis using Cons.prems by simp
  next
    case None
    obtain fs' r' where w: "write_aliases env aliases ds
        (AList.update (name d) (JStr (''./src/alias'' @ ''/'' @ filename d)) al) = (fs', r')"
      by (cases "write_aliases env aliases ds
        (AList.update (name d) (JStr (''./src/alias'' @ ''/'' @ filename d)) al)")
    have "fs = (path_join [aliases, filename d], Text (content d)) # fs'"
      using Cons.prems None w by simp
    then show ?thesis using Cons.IH[OF w] by simp
  qed
qed

lemma write_aliases_value:
  "write_aliases env aliases ds al = (fs, Inr alias') \<Longrightarrow>
   map_of alias' k =
     (case find (\<lambda>d. name d = k) (rev ds) of
        Some d \<Rightarrow> Some (alias_target d) | None \<Rightarrow> map_of al k)"
proof (induction ds arbitrary: al fs)
  case Nil
  then show ?case by simp
next
  case (Cons d ds)
  from Cons.prems obtain fs' where
    r: "write_aliases env aliases ds (AList.update (name d) (alias_target d) al) = (fs', Inr alias')"
    by (auto simp: alias_target_def split: option.splits prod.splits)
  show ?case
    using Cons.IH[OF r]
    by (auto simp: find_snoc update_conv' split: option.splits)
qed

lemma array_map_all2:
  "array_map f xs = Inr ys \<Longrightarrow> list_all2 (\<lambda>x y. f x = Inr y) xs ys"
  by (induction xs arbitrary: ys) (auto split: sum.splits)

lemma wordpress_dependency_fields:
  "wordpress_dependency dep = Inr d \<Longrightarrow>
   name d = dep \<and> filename d = ''wordpress-'' @ moduleName_of dep @ ''.js''"
  by (auto simp: wordpress_dependency_def moduleName_of_def split: list.splits)

lemma find_wordpress:
  assumes "list_all2 (\<lambda>x y. wordpress_dependency x = Inr y) xs ys"
  shows "find (\<lambda>d. name d = k) (rev ys) =
     (if k \<in> set xs then Some \<lparr>name = k, filename = ''wordpress-'' @ moduleName_of k @ ''.js'',
          content = template (''window.wp.'' @ camelCaseDash (moduleName_of k))\<rparr> else None)"
  using assms
proof (induction xs ys rule: list_all2_induct)
  case Nil
  then show ?case by simp
next
  case (Cons x xs y ys)
  have y: "name y = x" using Cons.hyps(1) by (simp add: wordpress_dependency_fields)
  have yk: "y = \<lparr>name = x, filename = ''wordpress-'' @ moduleName_of x @ ''.js'',
          content = template (''window.wp.'' @ camelCaseDash (moduleName_of x))\<rparr>"
    using Cons.hyps(1) by (auto simp: wordpress_dependency_def moduleName_of_def split: list.splits)
  show ?case using Cons.IH y yk by (auto simp: find_snoc)
qed


lemma find_app:
  "find P (xs @ ys) = (case find P xs of Some y \<Rightarrow> Some y | None \<Rightarrow> find P ys)"
  by (induction xs) auto

lemma not_wordpress_react_lodash:
  "\<not> includes_str ''@wordpress'' ''react''" "\<not> includes_str ''@wordpress'' ''lodash''"
  by simp_all

lemma alias_dependencies_find:
  assumes "alias_dependencies keys = Inr ds"
  shows "map_option alias_target (find (\<lambda>d. name d = k) (rev ds)) =
     (if includes_str ''@wordpress'' k
        then (if k \<in> set keys
              then Some (JStr (''./src/alias/wordpress-'' @ moduleName_of k @ ''.js'')) else None)
      else if k = ''react'' \<and> ''react'' \<in> set keys then Some (JStr ''./src/alias/react.js'')
      else if k = ''lodash'' \<and> ''lodash'' \<in> set keys then Some (JStr ''./src/alias/lodash.js'')
      else None)"
proof -
  from assms obtain wp where wp: "array_map wordpress_dependency (filter (includes_str ''@wordpress'') keys) = Inr wp"
    and ds: "ds = wp
       @ (if ''react'' \<in> set keys
          then [\<lparr>name = ''react'', filename = ''react.js'', content = template ''window.React''\<rparr>] else [])
       @ (if ''lodash'' \<in> set keys
          then [\<lparr>name = ''lodash'', filename = ''lodash.js'', content = template ''window.lodash''\<rparr>] else [])"
    by (auto simp: alias_dependencies_def split: sum.splits)
  note fw = find_wordpress[OF array_map_all2[OF wp], of k]
  show ?thesis
  proof (cases "includes_str ''@wordpress'' k")
    case True
    then have "k \<noteq> ''react''" "k \<noteq> ''lodash''" using not_wordpress_react_lodash by auto
    then show ?thesis using True fw unfolding ds
      by (simp add: find_app alias_target_def)
  next
    case False
    then have "find (\<lambda>d. name d = k) (rev wp) = None" using fw by simp
    then show ?thesis using False unfolding ds
      by (auto simp: find_app alias_target_def)
  qed
qed

lemma makeAliases_package:
  assumes "alias_getData env = Inr (pkg, paths)"
    and "(p, Json pkg') \<in> set (files (makeAliases env))"
  obtains keys ds fs al where "object_keys (map_of pkg ''dependencies'') = Inr keys"
    "alias_dependencies keys = Inr ds"
    "write_aliases env (path_join [root paths, ''./src/alias'']) ds
       (fresh_alias [] (previous_alias pkg)) = (fs, Inr al)"
    "pkg' = AList.update ''alias'' (JObj al) pkg"
  using assms
  by (auto simp: makeAliases_def makeAliases_body_def Let_def dest: write_aliases_text
      split: sum.splits prod.splits option.splits)

lemma caught_outcome: "outcome (caught message body) = Returned"
  by (simp add: caught_def split: sum.splits)

lemma caught_console:
  "body = Inl e \<Longrightarrow> console (caught message body) = [Message message, Logged e]"
  by (simp add: caught_def)

lemma caught_quiet: "console (caught message (Inr u)) = []"
  by (simp add: caught_def)

lemma makeAliases_run:
  "outcome (run (makeAliases env)) = Returned"
  "snd (snd (makeAliases_body env)) = Inl e \<Longrightarrow> console (run (makeAliases env)) = [Logged e]"
  "snd (snd (makeAliases_body env)) = Inr u \<Longrightarrow> console (run (makeAliases env)) = []"
  by (auto simp: makeAliases_def split: prod.splits sum.splits)

lemma makeJson_run:
  "outcome (json_report (makeJson env)) = Returned"
  "snd (snd (makeJson_body env)) = Inl e \<Longrightarrow>
     console (json_report (makeJson env)) = [Message ''Could not generate translations'', Logged e]"
  "snd (snd (makeJson_body env)) = Inr u \<Longrightarrow> console (json_report (makeJson env)) = []"
  by (auto simp: makeJson_def caught_def split: prod.splits sum.splits)

text \<open>
  With the paths that \<^verbatim>\<open>getData\<close> gives, \<^verbatim>\<open>generatePlugin\<close> never returns: an
  error leaves it before its \<^verbatim>\<open>try\<close> block, and nothing is printed.
\<close>

lemma generatePlugin_raises: "\<exists>e. generatePlugin env = \<lparr>console = [], outcome = Raised e\<rparr>"
  by (auto simp: generatePlugin_def split: sum.splits prod.splits)

subsection \<open>The merged and the emitted catalog\<close>

lemma lodash_merge_domain:
  assumes "catalog_for d f" and "has_domain d f"
    and "\<forall>g\<in>set gs. catalog_for d g \<and> has_domain d g"
  shows "has_domain d (lodash_merge f gs)"
  using assms
proof (induction gs arbitrary: f)
  case Nil
  then show ?case by simp
next
  case (Cons g gs)
  from Cons.prems obtain c where f: "f = JObj c" by (auto elim: catalog_forE)
  from Cons.prems obtain s where g: "g = JObj s" by (auto elim: catalog_forE)
  have cf: "catalog_for d (JObj c)" and cg: "catalog_for d (JObj s)"
    using Cons.prems f g by simp_all
  have ds: "distinct (map fst s)" using cg by (auto elim: catalog_forE)
  have "map_of s ''domain'' = Some (JStr d)"
    using Cons.prems g by (simp add: has_domain_def)
  then have "map_of (mergeObj c s) ''domain'' = Some (JStr d)"
    using ds by (simp add: mergeObj_value)
  then have hm: "has_domain d (JObj (mergeObj c s))" by (simp add: has_domain_def)
  have cm: "catalog_for d (JObj (mergeObj c s))" using cf cg by (rule merge_two_catalogs(1))
  have "has_domain d (lodash_merge (JObj (mergeObj c s)) gs)"
    using Cons.IH[OF cm hm] Cons.prems by simp
  then show ?case using f g by simp
qed

lemma redomain_table:
  assumes "map_of m ''domain'' = Some (JStr d)" and "d \<noteq> []"
    and "table_of d (JObj m) = Some t"
    and "redomain domain m = Inr m'"
  shows "\<exists>t'. table_of domain (JObj m') = Some t' \<and> fst ` set t' = fst ` set t
           \<and> (\<forall>k. k \<noteq> [] \<longrightarrow> map_of t' k = map_of t k)"
proof (cases "d = domain")
  case True
  then have "m' = m" using assms(1,4) by (simp add: redomain_noop)
  then show ?thesis using assms(3) True by simp
next
  case False
  from assms(3) obtain ld where ld: "map_of m ''locale_data'' = Some (JObj ld)"
    and t: "map_of ld d = Some (JObj t)"
    by (auto split: option.splits json.splits)
  let ?ld' = "AList.delete d (AList.update domain (JObj t) ld)"
  have ld': "map_of ?ld' domain = Some (JObj t)"
    using False by (simp add: delete_conv' update_conv')
  show ?thesis
  proof (cases "map_of t []")
    case None
    then show ?thesis using assms(1,2,4) False ld t ld'
      by (simp add: redomain_def Let_def)
  next
    case (Some meta)
    show ?thesis
    proof (cases meta)
      case (JObj mt)
      let ?t' = "AList.update [] (JObj (AList.update ''domain'' (JStr domain) mt)) t"
      have m': "m' = AList.update ''domain'' (JStr domain)
          (AList.update ''locale_data'' (JObj (AList.update domain (JObj ?t') ?ld')) m)"
        using assms(1,2,4) False ld t ld' Some JObj by (simp add: redomain_def Let_def)
      have tb: "table_of domain (JObj m') = Some ?t'"
        unfolding m' by (simp add: update_conv')
      have "[] \<in> fst ` set t" using Some by (metis domI dom_map_of_conv_image_fst)
      then have keys: "fst ` set ?t' = fst ` set t" by (auto simp: dom_update)
      have vals: "\<forall>k. k \<noteq> [] \<longrightarrow> map_of ?t' k = map_of t k" by (simp add: update_conv')
      show ?thesis using tb keys vals by blast
    next
      case (JArr xs)
      have m': "m' = AList.update ''domain'' (JStr domain)
          (AList.update ''locale_data'' (JObj ?ld') m)"
        using assms(1,2,4) False ld t ld' Some JArr by (simp add: redomain_def Let_def)
      have "table_of domain (JObj m') = Some t"
        unfolding m' using ld' by (simp add: update_conv')
      then show ?thesis by simp
    qed (use assms(1,2,4) False ld t ld' Some in \<open>simp_all add: redomain_def Let_def\<close>)
  qed
qed

lemma table_of_source:
  "table_of d (JObj (AList.update ''source'' v m)) = table_of d (JObj m)"
  by (simp add: update_conv')

lemma entry_emitted:
  assumes "generateTranslations_entry madge md5 lang domain paths key outFile translations
             = Inr (translations', Some (fname, catalog))"
    and "madge (path_join [src paths, key]) = Inr deps"
    and "array_filter (isRelated (map (\<lambda>dep. path_join [src paths, dep]) deps) (root paths))
           translations = Inr related"
  obtains object sources m m' v where "related = object # sources"
    "lodash_merge object sources = JObj m" "redomain domain m = Inr m'"
    "catalog = JObj (AList.update ''source'' v m')"
  using assms
  by (auto simp: generateTranslations_entry_def Let_def
      split: json.splits sum.splits list.splits)

lemma merged_values:
  assumes "\<forall>f\<in>set (object # sources). catalog_for d f"
  shows "table_keys d (lodash_merge object sources) = (\<Union>f\<in>set (object # sources). table_keys d f)"
    and "value_at d k (lodash_merge object sources)
            = merged_value (value_at d k object) (map (value_at d k) sources)"
    and "last_present (map (value_at d k) (object # sources)) = Some v \<Longrightarrow> scalar v
            \<Longrightarrow> value_at d k (lodash_merge object sources) = Some v"
    and "\<forall>f\<in>set (object # sources). \<forall>w. value_at d k f = Some w \<longrightarrow> flat_array n w
            \<Longrightarrow> value_at d k (lodash_merge object sources)
                = last_present (map (value_at d k) (object # sources))"
proof -
  have cf: "catalog_for d object" and cs: "\<forall>g\<in>set sources. catalog_for d g"
    using assms by simp_all
  note m = lodash_merge_catalogs[OF cf cs]
  show keys: "table_keys d (lodash_merge object sources)
      = (\<Union>f\<in>set (object # sources). table_keys d f)"
    using m by simp
  show vals: "value_at d k (lodash_merge object sources)
      = merged_value (value_at d k object) (map (value_at d k) sources)" for k
    using m by simp
  show "value_at d k (lodash_merge object sources) = Some v"
    if "last_present (map (value_at d k) (object # sources)) = Some v" and "scalar v"
  proof (cases "last_present (map (value_at d k) sources)")
    case None
    then have "value_at d k object = Some v" using that(1) by simp
    moreover have "merged_value (value_at d k object) (map (value_at d k) sources)
        = value_at d k object"
      using None by (induction "map (value_at d k) sources" arbitrary: sources)
        (auto split: option.splits)
    ultimately show ?thesis using vals by simp
  next
    case (Some w)
    then have "w = v" using that(1) by simp
    then show ?thesis using Some that(2) vals by (simp add: merged_value_scalar)
  qed
  show "value_at d k (lodash_merge object sources)
      = last_present (map (value_at d k) (object # sources))"
    if "\<forall>f\<in>set (object # sources). \<forall>w. value_at d k f = Some w \<longrightarrow> flat_array n w"
  proof -
    have "\<forall>w. Some w \<in> set (value_at d k object # map (value_at d k) sources) \<longrightarrow> flat_array n w"
      using that by auto
    then have "merged_value (value_at d k object) (map (value_at d k) sources)
        = last_present (value_at d k object # map (value_at d k) sources)"
      by (rule merged_value_flat)
    then show ?thesis using vals by simp
  qed
qed

lemma emitted_table:
  assumes "generateTranslations_entry madge md5 lang domain paths key outFile translations
             = Inr (translations', Some (fname, catalog))"
    and "madge (path_join [src paths, key]) = Inr deps"
    and "array_filter (isRelated (map (\<lambda>dep. path_join [src paths, dep]) deps) (root paths))
           translations = Inr (object # sources)"
    and "\<forall>f\<in>set (object # sources). catalog_for d f \<and> has_domain d f"
    and "d \<noteq> []"
  shows "table_keys domain catalog = table_keys d (lodash_merge object sources)"
    and "k \<noteq> [] \<Longrightarrow> value_at domain k catalog = value_at d k (lodash_merge object sources)"
proof -
  from entry_emitted[OF assms(1,2,3)] obtain m m' v where
    m: "lodash_merge object sources = JObj m" and r: "redomain domain m = Inr m'"
    and c: "catalog = JObj (AList.update ''source'' v m')"
    by blast
  have cf: "catalog_for d object" and cs: "\<forall>g\<in>set sources. catalog_for d g"
    using assms(4) by simp_all
  have hd: "has_domain d (lodash_merge object sources)"
    using assms(4) by (intro lodash_merge_domain) simp_all
  then have dm: "map_of m ''domain'' = Some (JStr d)" using m by (simp add: has_domain_def)
  have "catalog_for d (JObj m)" using lodash_merge_catalogs[OF cf cs] m by simp
  then obtain t where t: "table_of d (JObj m) = Some t" by (rule catalog_for_table)
  from redomain_table[OF dm assms(5) t r] obtain t' where
    t': "table_of domain (JObj m') = Some t'" "fst ` set t' = fst ` set t"
    "\<forall>k. k \<noteq> [] \<longrightarrow> map_of t' k = map_of t k"
    by blast
  have tc: "table_of domain catalog = Some t'" unfolding c table_of_source by (rule t'(1))
  show "table_keys domain catalog = table_keys d (lodash_merge object sources)"
    using tc t t'(2) m by (simp add: table_keys_def)
  show "value_at domain k catalog = value_at d k (lodash_merge object sources)" if "k \<noteq> []"
    using tc t t'(3) m that by (simp add: value_at_def)
qed

text \<open>Catalogs in the format of the localisation tool.\<close>

lemma jed_catalog_fields:
  assumes "jed_catalog d f"
  obtains c ld t mm where "f = JObj c" "distinct (map fst c)"
    "map_of c ''domain'' = Some (JStr d)"
    "map_of c ''locale_data'' = Some (JObj ld)" "distinct (map fst ld)"
    "map_of ld d = Some (JObj t)" "distinct (map fst t)"
    "map_of t [] = Some (JObj mm)"
proof -
  from assms obtain c where f: "f = JObj c"
    by (cases f) (simp_all add: jed_catalog_def)
  from assms f have dc: "distinct (map fst c)" and dm: "map_of c ''domain'' = Some (JStr d)"
    by (simp_all add: jed_catalog_def plain_object_def)
  from assms f have j: "case map_of c ''locale_data'' of
               Some (JObj locale_data) \<Rightarrow>
                 plain_object locale_data
                 \<and> list_all (\<lambda>(k, v). case v of JObj table \<Rightarrow> jed_table table | _ \<Rightarrow> False)
                       locale_data
                 \<and> map_of locale_data d \<noteq> None
             | _ \<Rightarrow> False"
    by (simp add: jed_catalog_def)
  obtain ld where ld: "map_of c ''locale_data'' = Some (JObj ld)"
  proof (cases "map_of c ''locale_data''")
    case None
    then show ?thesis using j by simp
  next
    case (Some x)
    then show ?thesis using j that by (cases x) simp_all
  qed
  from j have j': "plain_object ld
      \<and> list_all (\<lambda>(k, v). case v of JObj table \<Rightarrow> jed_table table | _ \<Rightarrow> False) ld
      \<and> map_of ld d \<noteq> None"
    by (simp add: ld)
  from j' have dl: "distinct (map fst ld)" by (simp add: plain_object_def)
  from j' have tables:
    "list_all (\<lambda>(k, v). case v of JObj table \<Rightarrow> jed_table table | _ \<Rightarrow> False) ld"
    by (elim conjE)
  from j' have nn: "map_of ld d \<noteq> None" by (elim conjE)
  from nn obtain v where v: "map_of ld d = Some v" by (cases "map_of ld d") simp_all
  then have "(d, v) \<in> set ld" by (rule map_of_SomeD)
  with tables have "case v of JObj table \<Rightarrow> jed_table table | _ \<Rightarrow> False"
    by (auto simp: list_all_iff)
  then obtain t where t: "v = JObj t" and jt: "jed_table t"
    by (cases v) simp_all
  from jt have dt: "distinct (map fst t)" by (simp add: jed_table_def plain_object_def)
  from jt have jm: "case map_of t [] of Some (JObj meta) \<Rightarrow> True | _ \<Rightarrow> False"
    by (simp add: jed_table_def split: option.splits json.splits)
  obtain mm where mm: "map_of t [] = Some (JObj mm)"
  proof (cases "map_of t []")
    case None
    then show ?thesis using jm by simp
  next
    case (Some x)
    then show ?thesis using jm that by (cases x) simp_all
  qed
  show ?thesis using that f dc dm ld dl v t dt mm by simp
qed

lemma jed_catalog_catalog_for:
  assumes "jed_catalog d f" shows "catalog_for d f \<and> has_domain d f"
  using assms by (elim jed_catalog_fields) (simp add: catalog_for_def has_domain_def)

lemma jed_catalog_metadata:
  assumes "jed_catalog d f" shows "\<exists>mm. value_at d [] f = Some (JObj mm)"
  using assms by (elim jed_catalog_fields) (simp add: value_at_def)

lemma merged_value_object:
  "\<exists>a. acc = Some (JObj a) \<Longrightarrow> \<forall>v\<in>set vs. \<exists>b. v = Some (JObj b)
     \<Longrightarrow> \<exists>c. merged_value acc vs = Some (JObj c)"
proof (induction vs arbitrary: acc)
  case Nil
  then show ?case by simp
next
  case (Cons v vs)
  from Cons.prems obtain b where v: "v = Some (JObj b)" by auto
  have "\<exists>a. Some (mergeProp acc (JObj b)) = Some (JObj a)" by simp
  from Cons.IH[OF this] Cons.prems(2) show ?case using v by simp
qed

lemma redomain_metadata:
  assumes "map_of m ''domain'' = Some (JStr d)" and "d \<noteq> []"
    and "table_of d (JObj m) = Some t"
    and "map_of t [] = Some (JObj mm)"
  shows "\<exists>m'. redomain domain m = Inr m'
     \<and> value_at domain [] (JObj m')
         = Some (JObj (if d = domain then mm else AList.update ''domain'' (JStr domain) mm))"
proof (cases "d = domain")
  case True
  then have "redomain domain m = Inr m" using assms(1) by (simp add: redomain_noop)
  then show ?thesis using True assms(3,4) by (simp add: value_at_def)
next
  case False
  from assms(3) obtain ld where ld: "map_of m ''locale_data'' = Some (JObj ld)"
    and t: "map_of ld d = Some (JObj t)"
    by (auto split: option.splits json.splits)
  from redomain_moves[OF assms(1,2) False ld t assms(4)] obtain m' ld' where
    r: "redomain domain m = Inr m'" and l: "map_of m' ''locale_data'' = Some (JObj ld')"
    and v: "map_of ld' domain
         = Some (JObj (AList.update [] (JObj (AList.update ''domain'' (JStr domain) mm)) t))"
    by (elim exE conjE)
  have "value_at domain [] (JObj m') = Some (JObj (AList.update ''domain'' (JStr domain) mm))"
    using l v by (simp add: value_at_def update_conv')
  then show ?thesis using r False by simp
qed

lemma entry_emits:
  assumes "madge (path_join [src paths, key]) = Inr deps"
    and "array_filter (isRelated (map (\<lambda>dep. path_join [src paths, dep]) deps) (root paths))
           translations = Inr (object # sources)"
    and "lodash_merge object sources = JObj m"
    and "redomain domain m = Inr m'"
  shows "generateTranslations_entry madge md5 lang domain paths key (JStr out) translations
       = Inr (translations
                [first_related (map (\<lambda>dep. path_join [src paths, dep]) deps) (root paths) translations
                   := JObj (AList.update ''source''
                        (JStr (relativeFilename paths (path_join [dist paths, out]))) m')],
              Some (translationFileName md5 paths domain lang
                      (relativeFilename paths (path_join [dist paths, out])),
                    JObj (AList.update ''source''
                        (JStr (relativeFilename paths (path_join [dist paths, out]))) m')))"
  using assms by (simp add: generateTranslations_entry_def Let_def)

lemma value_at_source:
  "value_at d k (JObj (AList.update ''source'' v m)) = value_at d k (JObj m)"
  by (simp add: value_at_def update_conv')

lemma jed_merged:
  assumes "\<forall>f\<in>set (object # sources). jed_catalog d f" and "d \<noteq> []"
  obtains m t mm where "lodash_merge object sources = JObj m"
    "map_of m ''domain'' = Some (JStr d)" "table_of d (JObj m) = Some t"
    "map_of t [] = Some (JObj mm)"
    "merged_value (value_at d [] object) (map (value_at d []) sources) = Some (JObj mm)"
proof -
  have wf: "\<forall>f\<in>set (object # sources). catalog_for d f \<and> has_domain d f"
    using assms(1) jed_catalog_catalog_for by blast
  then have cf: "catalog_for d object" and cs: "\<forall>g\<in>set sources. catalog_for d g"
    by simp_all
  note mc = lodash_merge_catalogs[OF cf cs]
  from mc obtain m where m: "lodash_merge object sources = JObj m"
    by (auto elim: catalog_forE)
  have hd: "has_domain d (lodash_merge object sources)"
    using wf by (intro lodash_merge_domain) simp_all
  then have dm: "map_of m ''domain'' = Some (JStr d)" using m by (simp add: has_domain_def)
  have "catalog_for d (JObj m)" using mc m by simp
  then obtain t where t: "table_of d (JObj m) = Some t" by (rule catalog_for_table)
  have "\<exists>a. value_at d [] object = Some (JObj a)"
    using assms(1) by (simp add: jed_catalog_metadata)
  moreover have "\<forall>v\<in>set (map (value_at d []) sources). \<exists>b. v = Some (JObj b)"
    using assms(1) by (auto simp: jed_catalog_metadata)
  ultimately obtain mm where
    mv: "merged_value (value_at d [] object) (map (value_at d []) sources) = Some (JObj mm)"
    using merged_value_object by blast
  have "value_at d [] (lodash_merge object sources) = Some (JObj mm)"
    using mc mv by simp
  then have "map_of t [] = Some (JObj mm)" using m t by (simp add: value_at_def)
  then show ?thesis using that m dm t mv by blast
qed

subsection \<open>The claims about make-json\<close>

text \<open>
  C1, as amended. Take an entry of the manifest whose value is a string, whose
  dependency analysis succeeds and that selects at least one fragment, where the
  selected fragments are catalogs of one non-empty domain in the format of the
  localisation tool and the target domain is not \<^verbatim>\<open>__proto__\<close>. Then the entry emits a catalog: no
  conflict is an error. The table of the merged catalog, and the table of the
  emitted catalog under the target domain, have exactly the keys of the tables
  of all selected fragments, the metadata key among them. The value under a key
  is the deep merge, from left to right, of the values the fragments hold under
  it. This is the emitted value for every key but the metadata key; the emitted
  metadata is the merged metadata, with its domain field set to the target
  domain when that is not the domain of the fragments. The merged value is the
  value of the last fragment that has the key when that value is a string, a
  number, a boolean or null, and when every fragment that has the key holds an
  array of such values of one common length.
\<close>

theorem merged_catalog_keys_and_values:
  assumes "madge (path_join [src paths, key]) = Inr deps"
    and "array_filter (isRelated (map (\<lambda>dep. path_join [src paths, dep]) deps) (root paths))
           translations = Inr (object # sources)"
    and "\<forall>f\<in>set (object # sources). jed_catalog d f"
    and "d \<noteq> []"
    and "domain \<noteq> ''__proto__''"
  shows "(\<exists>translations' fname catalog.
            generateTranslations_entry madge md5 lang domain paths key (JStr out) translations
              = Inr (translations', Some (fname, catalog)))
     \<and> table_keys d (lodash_merge object sources) = (\<Union>f\<in>set (object # sources). table_keys d f)
     \<and> (\<forall>k. value_at d k (lodash_merge object sources)
            = merged_value (value_at d k object) (map (value_at d k) sources))
     \<and> (\<forall>translations' fname catalog.
          generateTranslations_entry madge md5 lang domain paths key (JStr out) translations
              = Inr (translations', Some (fname, catalog)) \<longrightarrow>
          table_keys domain catalog = (\<Union>f\<in>set (object # sources). table_keys d f)
          \<and> (\<forall>k. k \<noteq> [] \<longrightarrow> value_at domain k catalog
                 = merged_value (value_at d k object) (map (value_at d k) sources))
          \<and> (\<exists>meta. merged_value (value_at d [] object) (map (value_at d []) sources)
                        = Some (JObj meta)
                 \<and> value_at domain [] catalog
                     = Some (JObj (if d = domain then meta
                                   else AList.update ''domain'' (JStr domain) meta)))
          \<and> (\<forall>k v. k \<noteq> [] \<and> last_present (map (value_at d k) (object # sources)) = Some v
                   \<and> scalar v
                 \<longrightarrow> value_at domain k catalog = Some v)
          \<and> (\<forall>k n. k \<noteq> []
                   \<and> (\<forall>f\<in>set (object # sources). \<forall>w. value_at d k f = Some w \<longrightarrow> flat_array n w)
                 \<longrightarrow> value_at domain k catalog
                     = last_present (map (value_at d k) (object # sources))))"
proof -
  have wf: "\<forall>f\<in>set (object # sources). catalog_for d f \<and> has_domain d f"
    using assms(3) jed_catalog_catalog_for by blast
  then have wc: "\<forall>f\<in>set (object # sources). catalog_for d f" by simp
  note g = merged_values[OF wc]
  from jed_merged[OF assms(3,4)] obtain m t mm where
    m: "lodash_merge object sources = JObj m"
    and dm: "map_of m ''domain'' = Some (JStr d)"
    and t: "table_of d (JObj m) = Some t"
    and mt: "map_of t [] = Some (JObj mm)"
    and mv: "merged_value (value_at d [] object) (map (value_at d []) sources) = Some (JObj mm)"
    by blast
  from redomain_metadata[OF dm assms(4) t mt, of domain] obtain m' where
    r: "redomain domain m = Inr m'"
    and vm: "value_at domain [] (JObj m')
         = Some (JObj (if d = domain then mm else AList.update ''domain'' (JStr domain) mm))"
    by (elim exE conjE)
  have 1: "\<exists>translations' fname catalog.
            generateTranslations_entry madge md5 lang domain paths key (JStr out) translations
              = Inr (translations', Some (fname, catalog))"
    using entry_emits[where madge = madge and paths = paths and key = key and ?md5.0 = md5
        and lang = lang and out = out, OF assms(1,2) m r]
    by (intro exI)
  have 2: "table_keys d (lodash_merge object sources) = (\<Union>f\<in>set (object # sources). table_keys d f)"
    by (rule g(1))
  have 3: "\<forall>k. value_at d k (lodash_merge object sources)
            = merged_value (value_at d k object) (map (value_at d k) sources)"
    using g(2) by simp
  have 4: "\<forall>translations' fname catalog.
          generateTranslations_entry madge md5 lang domain paths key (JStr out) translations
              = Inr (translations', Some (fname, catalog)) \<longrightarrow>
          table_keys domain catalog = (\<Union>f\<in>set (object # sources). table_keys d f)
          \<and> (\<forall>k. k \<noteq> [] \<longrightarrow> value_at domain k catalog
                 = merged_value (value_at d k object) (map (value_at d k) sources))
          \<and> (\<exists>meta. merged_value (value_at d [] object) (map (value_at d []) sources)
                        = Some (JObj meta)
                 \<and> value_at domain [] catalog
                     = Some (JObj (if d = domain then meta
                                   else AList.update ''domain'' (JStr domain) meta)))
          \<and> (\<forall>k v. k \<noteq> [] \<and> last_present (map (value_at d k) (object # sources)) = Some v
                   \<and> scalar v
                 \<longrightarrow> value_at domain k catalog = Some v)
          \<and> (\<forall>k n. k \<noteq> []
                   \<and> (\<forall>f\<in>set (object # sources). \<forall>w. value_at d k f = Some w \<longrightarrow> flat_array n w)
                 \<longrightarrow> value_at domain k catalog
                     = last_present (map (value_at d k) (object # sources)))"
    (is "\<forall>translations' fname catalog. ?E translations' fname catalog \<longrightarrow> ?B catalog")
  proof (intro allI impI)
    fix translations' fname catalog
    assume e: "?E translations' fname catalog"
    note et = emitted_table[OF e assms(1,2) wf assms(4)]
    from entry_emitted[OF e assms(1,2)] obtain m0 m0' v where
      "lodash_merge object sources = JObj m0" "redomain domain m0 = Inr m0'"
      and c: "catalog = JObj (AList.update ''source'' v m0')"
      by blast
    with m r have c': "catalog = JObj (AList.update ''source'' v m')" by simp
    have a: "table_keys domain catalog = (\<Union>f\<in>set (object # sources). table_keys d f)"
      using et(1) g(1) by simp
    have b: "\<forall>k. k \<noteq> [] \<longrightarrow> value_at domain k catalog
                 = merged_value (value_at d k object) (map (value_at d k) sources)"
      using et(2) g(2) by simp
    have "value_at domain [] catalog
        = Some (JObj (if d = domain then mm else AList.update ''domain'' (JStr domain) mm))"
      unfolding c' value_at_source by (rule vm)
    with mv have c3: "\<exists>meta. merged_value (value_at d [] object) (map (value_at d []) sources)
                        = Some (JObj meta)
                 \<and> value_at domain [] catalog
                     = Some (JObj (if d = domain then meta
                                   else AList.update ''domain'' (JStr domain) meta))"
      by (intro exI[of _ mm] conjI)
    have d5: "\<forall>k v. k \<noteq> [] \<and> last_present (map (value_at d k) (object # sources)) = Some v
                   \<and> scalar v
                 \<longrightarrow> value_at domain k catalog = Some v"
      using et(2) g(3) by simp
    have d6: "\<forall>k n. k \<noteq> []
                   \<and> (\<forall>f\<in>set (object # sources). \<forall>w. value_at d k f = Some w \<longrightarrow> flat_array n w)
                 \<longrightarrow> value_at domain k catalog
                     = last_present (map (value_at d k) (object # sources))"
      using et(2) g(4) by metis
    show "?B catalog" using a b c3 d5 d6 by (intro conjI)
  qed
  show ?thesis using 1 2 3 4 by (intro conjI)
qed

theorem merged_catalog_keys_and_values_witness:
  "generateTranslations_entry shared_madge digest ''sv_SE'' ''myplugin'' project ''a.js'' (JStr ''a.1.js'')
     [fragment ''src/a.js'' ''messages'' ''sv_SE'' [(''apple'', JArr [JStr ''a1'']), (''note'', JStr ''n1'')],
      fragment ''src/other.js'' ''messages'' ''sv_SE'' [(''plum'', JArr [JStr ''p''])],
      fragment ''src/shared.js'' ''messages'' ''sv_SE''
        [(''pear'', JArr [JStr ''p1'']), (''apple'', JArr [JStr ''b1'']), (''note'', JStr ''n2'')]]
   = Inr ([fragment ''dist/a.1.js'' ''myplugin'' ''sv_SE''
             [(''apple'', JArr [JStr ''b1'']), (''note'', JStr ''n2''), (''pear'', JArr [JStr ''p1''])],
           fragment ''src/other.js'' ''messages'' ''sv_SE'' [(''plum'', JArr [JStr ''p''])],
           fragment ''src/shared.js'' ''messages'' ''sv_SE''
             [(''pear'', JArr [JStr ''p1'']), (''apple'', JArr [JStr ''b1'']), (''note'', JStr ''n2'')]],
          Some (''/proj/dist/myplugin-sv_SE-dist_a.1.js.json'',
                fragment ''dist/a.1.js'' ''myplugin'' ''sv_SE''
                  [(''apple'', JArr [JStr ''b1'']), (''note'', JStr ''n2''), (''pear'', JArr [JStr ''p1''])]))
   \<and> table_keys ''myplugin''
        (fragment ''dist/a.1.js'' ''myplugin'' ''sv_SE''
           [(''apple'', JArr [JStr ''b1'']), (''note'', JStr ''n2''), (''pear'', JArr [JStr ''p1''])])
      = {[], ''apple'', ''note'', ''pear''}
   \<and> value_at ''myplugin'' []
        (fragment ''dist/a.1.js'' ''myplugin'' ''sv_SE''
           [(''apple'', JArr [JStr ''b1'']), (''note'', JStr ''n2''), (''pear'', JArr [JStr ''p1''])])
      = Some (JObj [(''domain'', JStr ''myplugin''), (''lang'', JStr ''sv_SE'')])
   \<and> value_at ''myplugin'' ''note''
        (fragment ''dist/a.1.js'' ''myplugin'' ''sv_SE''
           [(''apple'', JArr [JStr ''b1'']), (''note'', JStr ''n2''), (''pear'', JArr [JStr ''p1''])])
      = Some (JStr ''n2'')
   \<and> value_at ''myplugin'' ''apple''
        (fragment ''dist/a.1.js'' ''myplugin'' ''sv_SE''
           [(''apple'', JArr [JStr ''b1'']), (''note'', JStr ''n2''), (''pear'', JArr [JStr ''p1''])])
      = Some (JArr [JStr ''b1''])"
proof -
  let ?a = "fragment ''src/a.js'' ''messages'' ''sv_SE'' [(''apple'', JArr [JStr ''a1'']), (''note'', JStr ''n1'')]"
  let ?o = "fragment ''src/other.js'' ''messages'' ''sv_SE'' [(''plum'', JArr [JStr ''p''])]"
  let ?x = "fragment ''src/shared.js'' ''messages'' ''sv_SE''
        [(''pear'', JArr [JStr ''p1'']), (''apple'', JArr [JStr ''b1'']), (''note'', JStr ''n2'')]"
  let ?c = "fragment ''dist/a.1.js'' ''myplugin'' ''sv_SE''
             [(''apple'', JArr [JStr ''b1'']), (''note'', JStr ''n2''), (''pear'', JArr [JStr ''p1''])]"
  have ev: "generateTranslations_entry shared_madge digest ''sv_SE'' ''myplugin'' project ''a.js''
      (JStr ''a.1.js'') [?a, ?o, ?x]
    = Inr ([?c, ?o, ?x], Some (''/proj/dist/myplugin-sv_SE-dist_a.1.js.json'', ?c))"
    by (simp add: path_eval entry_eval)
  have mg: "shared_madge (path_join [src project, ''a.js'']) = Inr [''a.js'', ''shared.js'']"
    by (simp add: shared_madge_def path_eval)
  have sel: "array_filter
      (isRelated (map (\<lambda>dep. path_join [src project, dep]) [''a.js'', ''shared.js'']) (root project))
      [?a, ?o, ?x] = Inr (?a # [?x])"
    by (simp add: fragment_def path_eval)
  have wf: "\<forall>f\<in>set (?a # [?x]). jed_catalog ''messages'' f"
    by (simp add: fragment_def jed_catalog_def jed_table_def plain_object_def)
  have ne: "''messages'' \<noteq> []" by simp
  have np: "''myplugin'' \<noteq> ''__proto__''" by simp
  note main = merged_catalog_keys_and_values[where madge = shared_madge and paths = project
      and key = "''a.js''" and ?md5.0 = digest and lang = "''sv_SE''" and out = "''a.1.js''",
      OF mg sel wf ne np]
  from main have emitted: "\<forall>translations' fname catalog.
      generateTranslations_entry shared_madge digest ''sv_SE'' ''myplugin'' project ''a.js''
        (JStr ''a.1.js'') [?a, ?o, ?x] = Inr (translations', Some (fname, catalog)) \<longrightarrow>
      table_keys ''myplugin'' catalog = (\<Union>f\<in>set (?a # [?x]). table_keys ''messages'' f)
      \<and> (\<forall>k. k \<noteq> [] \<longrightarrow> value_at ''myplugin'' k catalog
             = merged_value (value_at ''messages'' k ?a) (map (value_at ''messages'' k) [?x]))
      \<and> (\<exists>meta. merged_value (value_at ''messages'' [] ?a) (map (value_at ''messages'' []) [?x])
                    = Some (JObj meta)
             \<and> value_at ''myplugin'' [] catalog
                 = Some (JObj (if ''messages'' = ''myplugin'' then meta
                               else AList.update ''domain'' (JStr ''myplugin'') meta)))
      \<and> (\<forall>k v. k \<noteq> [] \<and> last_present (map (value_at ''messages'' k) (?a # [?x])) = Some v
               \<and> scalar v
             \<longrightarrow> value_at ''myplugin'' k catalog = Some v)
      \<and> (\<forall>k n. k \<noteq> []
               \<and> (\<forall>f\<in>set (?a # [?x]). \<forall>w. value_at ''messages'' k f = Some w \<longrightarrow> flat_array n w)
             \<longrightarrow> value_at ''myplugin'' k catalog
                 = last_present (map (value_at ''messages'' k) (?a # [?x])))"
    by (elim conjE)
  note at_c = emitted[rule_format, OF ev]
  have keys: "(\<Union>f\<in>set (?a # [?x]). table_keys ''messages'' f) = {[], ''apple'', ''note'', ''pear''}"
    by (auto simp: fragment_def table_keys_def)
  have meta: "merged_value (value_at ''messages'' [] ?a) (map (value_at ''messages'' []) [?x])
      = Some (JObj [(''domain'', JStr ''messages''), (''lang'', JStr ''sv_SE'')])"
    by (simp add: fragment_def value_at_def)
  have note_last: "''note'' \<noteq> [] \<and> last_present (map (value_at ''messages'' ''note'') (?a # [?x])) = Some (JStr ''n2'')
      \<and> scalar (JStr ''n2'')"
    by (simp add: fragment_def value_at_def)
  have apple_flat: "''apple'' \<noteq> [] \<and> (\<forall>f\<in>set (?a # [?x]). \<forall>w. value_at ''messages'' ''apple'' f = Some w \<longrightarrow> flat_array 1 w)"
    by (simp add: fragment_def value_at_def flat_array_def)
  have apple_last: "last_present (map (value_at ''messages'' ''apple'') (?a # [?x])) = Some (JArr [JStr ''b1''])"
    by (simp add: fragment_def value_at_def)
  from at_c have k: "table_keys ''myplugin'' ?c = (\<Union>f\<in>set (?a # [?x]). table_keys ''messages'' f)"
    by (elim conjE)
  from at_c have m: "\<exists>meta. merged_value (value_at ''messages'' [] ?a) (map (value_at ''messages'' []) [?x])
                    = Some (JObj meta)
             \<and> value_at ''myplugin'' [] ?c
                 = Some (JObj (if ''messages'' = ''myplugin'' then meta
                               else AList.update ''domain'' (JStr ''myplugin'') meta))"
    by (elim conjE)
  from at_c have s: "\<forall>k v. k \<noteq> [] \<and> last_present (map (value_at ''messages'' k) (?a # [?x])) = Some v \<and> scalar v
      \<longrightarrow> value_at ''myplugin'' k ?c = Some v"
    by (elim conjE)
  from at_c have f: "\<forall>k n. k \<noteq> [] \<and> (\<forall>f\<in>set (?a # [?x]). \<forall>w. value_at ''messages'' k f = Some w \<longrightarrow> flat_array n w)
      \<longrightarrow> value_at ''myplugin'' k ?c = last_present (map (value_at ''messages'' k) (?a # [?x]))"
    by (elim conjE)
  have 1: "table_keys ''myplugin'' ?c = {[], ''apple'', ''note'', ''pear''}"
    unfolding k by (rule keys)
  have 2: "value_at ''myplugin'' [] ?c
      = Some (JObj [(''domain'', JStr ''myplugin''), (''lang'', JStr ''sv_SE'')])"
    using m unfolding meta by (elim exE conjE) simp
  have 3: "value_at ''myplugin'' ''note'' ?c = Some (JStr ''n2'')"
    using s[rule_format, OF note_last] .
  have 4: "value_at ''myplugin'' ''apple'' ?c = Some (JArr [JStr ''b1''])"
    using f[rule_format, of "''apple''" 1, OF apple_flat] apple_last by simp
  show ?thesis using ev 1 2 3 4 by (intro conjI)
qed

text \<open>
  C1 as it is written fails where two fragments hold arrays of different
  lengths under one key: the emitted value is neither fragment's value.
\<close>

theorem last_write_wins_counterexample:
  "generateTranslations shared_madge digest ''sv_SE'' ''myplugin'' project
     [(''a.js'', JStr ''a.1.js'')]
     [fragment ''src/a.js'' ''messages'' ''sv_SE'' [(''apple'', JArr [JStr ''a1'', JStr ''a2''])],
      fragment ''src/shared.js'' ''messages'' ''sv_SE'' [(''apple'', JArr [JStr ''b1''])]]
   = ([(''/proj/dist/myplugin-sv_SE-dist_a.1.js.json'',
        fragment ''dist/a.1.js'' ''myplugin'' ''sv_SE'' [(''apple'', JArr [JStr ''b1'', JStr ''a2''])])],
      Inr [fragment ''dist/a.1.js'' ''myplugin'' ''sv_SE'' [(''apple'', JArr [JStr ''b1'', JStr ''a2''])],
           fragment ''src/shared.js'' ''messages'' ''sv_SE'' [(''apple'', JArr [JStr ''b1''])]])
   \<and> value_at ''messages'' ''apple''
        (fragment ''src/shared.js'' ''messages'' ''sv_SE'' [(''apple'', JArr [JStr ''b1''])])
      = Some (JArr [JStr ''b1''])
   \<and> value_at ''myplugin'' ''apple''
        (fragment ''dist/a.1.js'' ''myplugin'' ''sv_SE'' [(''apple'', JArr [JStr ''b1'', JStr ''a2''])])
      = Some (JArr [JStr ''b1'', JStr ''a2''])"
  by (simp add: path_eval entry_eval value_at_def)

text \<open>
  C2, as amended. When the domain of the merged catalog is a non-empty string
  other than the target domain, \<^verbatim>\<open>locale_data\<close> is an object whose table for that
  domain has a metadata object, and the target domain is not \<^verbatim>\<open>__proto__\<close>, the
  re-domain step completes and: the table is found under the target domain,
  with the domain of its metadata set to the target domain; nothing is left
  under the original domain; the other tables and the other fields of the
  catalog are as before; and the domain of the catalog is the target domain. A
  catalog whose domain is absent, null, false, zero or the empty string is left
  as it is.
\<close>

theorem redomain_moves_table:
  "(map_of m ''domain'' = Some (JStr od) \<and> od \<noteq> [] \<and> od \<noteq> domain \<and> domain \<noteq> ''__proto__''
      \<and> map_of m ''locale_data'' = Some (JObj ld)
      \<and> map_of ld od = Some (JObj table)
      \<and> map_of table [] = Some (JObj meta)
    \<longrightarrow> (\<exists>m' ld'. redomain domain m = Inr m'
           \<and> map_of m' ''domain'' = Some (JStr domain)
           \<and> map_of m' ''locale_data'' = Some (JObj ld')
           \<and> map_of ld' domain
               = Some (JObj (AList.update [] (JObj (AList.update ''domain'' (JStr domain) meta)) table))
           \<and> map_of ld' od = None
           \<and> (\<forall>k. k \<noteq> od \<and> k \<noteq> domain \<longrightarrow> map_of ld' k = map_of ld k)
           \<and> (\<forall>k. k \<noteq> ''domain'' \<and> k \<noteq> ''locale_data'' \<longrightarrow> map_of m' k = map_of m k)))
   \<and> (\<not> truthy (map_of other ''domain'') \<longrightarrow> redomain domain other = Inr other)"
proof (intro conjI impI)
  assume h: "map_of m ''domain'' = Some (JStr od) \<and> od \<noteq> [] \<and> od \<noteq> domain \<and> domain \<noteq> ''__proto__''
      \<and> map_of m ''locale_data'' = Some (JObj ld)
      \<and> map_of ld od = Some (JObj table)
      \<and> map_of table [] = Some (JObj meta)"
  then have "map_of m ''domain'' = Some (JStr od)" "od \<noteq> []" "od \<noteq> domain"
    "map_of m ''locale_data'' = Some (JObj ld)" "map_of ld od = Some (JObj table)"
    "map_of table [] = Some (JObj meta)"
    by simp_all
  then show "\<exists>m' ld'. redomain domain m = Inr m'
           \<and> map_of m' ''domain'' = Some (JStr domain)
           \<and> map_of m' ''locale_data'' = Some (JObj ld')
           \<and> map_of ld' domain
               = Some (JObj (AList.update [] (JObj (AList.update ''domain'' (JStr domain) meta)) table))
           \<and> map_of ld' od = None
           \<and> (\<forall>k. k \<noteq> od \<and> k \<noteq> domain \<longrightarrow> map_of ld' k = map_of ld k)
           \<and> (\<forall>k. k \<noteq> ''domain'' \<and> k \<noteq> ''locale_data'' \<longrightarrow> map_of m' k = map_of m k)"
    by (rule redomain_moves)
next
  assume "\<not> truthy (map_of other ''domain'')"
  then show "redomain domain other = Inr other" by (rule redomain_falsy)
qed

theorem redomain_moves_table_witness:
  "(\<exists>m' ld'. redomain ''myplugin''
        [(''source'', JStr ''src/a.js''), (''domain'', JStr ''messages''),
         (''locale_data'', JObj [(''messages'',
            JObj [([], JObj [(''domain'', JStr ''messages''), (''lang'', JStr ''sv_SE'')]),
                  (''Hello'', JArr [JStr ''Hej''])])])] = Inr m'
     \<and> map_of m' ''domain'' = Some (JStr ''myplugin'')
     \<and> map_of m' ''locale_data'' = Some (JObj ld')
     \<and> map_of ld' ''myplugin''
         = Some (JObj [([], JObj [(''domain'', JStr ''myplugin''), (''lang'', JStr ''sv_SE'')]),
                       (''Hello'', JArr [JStr ''Hej''])])
     \<and> map_of ld' ''messages'' = None)
   \<and> redomain ''myplugin''
        [(''source'', JStr ''src/a.js''), (''domain'', JNull),
         (''locale_data'', JObj [(''messages'', JObj [(''Hello'', JArr [JStr ''Hej''])])])]
      = Inr [(''source'', JStr ''src/a.js''), (''domain'', JNull),
         (''locale_data'', JObj [(''messages'', JObj [(''Hello'', JArr [JStr ''Hej''])])])]"
proof -
  let ?meta = "[(''domain'', JStr ''messages''), (''lang'', JStr ''sv_SE'')]"
  let ?table = "[([], JObj ?meta), (''Hello'', JArr [JStr ''Hej''])]"
  let ?ld = "[(''messages'', JObj ?table)]"
  let ?m = "[(''source'', JStr ''src/a.js''), (''domain'', JStr ''messages''),
             (''locale_data'', JObj ?ld)]"
  let ?u = "[(''source'', JStr ''src/a.js''), (''domain'', JNull),
         (''locale_data'', JObj [(''messages'', JObj [(''Hello'', JArr [JStr ''Hej''])])])]"
  have h: "map_of ?m ''domain'' = Some (JStr ''messages'') \<and> ''messages'' \<noteq> []
    \<and> ''messages'' \<noteq> ''myplugin'' \<and> ''myplugin'' \<noteq> ''__proto__''
    \<and> map_of ?m ''locale_data'' = Some (JObj ?ld)
    \<and> map_of ?ld ''messages'' = Some (JObj ?table) \<and> map_of ?table [] = Some (JObj ?meta)"
    by simp
  have f: "\<not> truthy (map_of ?u ''domain'')" by simp
  note t = redomain_moves_table[where m = ?m and od = "''messages''" and domain = "''myplugin''"
      and ld = ?ld and table = ?table and meta = ?meta and other = ?u]
  from t have moved: "\<exists>m' ld'. redomain ''myplugin'' ?m = Inr m'
           \<and> map_of m' ''domain'' = Some (JStr ''myplugin'')
           \<and> map_of m' ''locale_data'' = Some (JObj ld')
           \<and> map_of ld' ''myplugin''
               = Some (JObj (AList.update [] (JObj (AList.update ''domain'' (JStr ''myplugin'') ?meta)) ?table))
           \<and> map_of ld' ''messages'' = None
           \<and> (\<forall>k. k \<noteq> ''messages'' \<and> k \<noteq> ''myplugin'' \<longrightarrow> map_of ld' k = map_of ?ld k)
           \<and> (\<forall>k. k \<noteq> ''domain'' \<and> k \<noteq> ''locale_data'' \<longrightarrow> map_of m' k = map_of ?m k)"
    by (rule conjunct1[THEN mp, OF _ h])
  from t have kept: "redomain ''myplugin'' ?u = Inr ?u"
    by (rule conjunct2[THEN mp, OF _ f])
  have 1: "\<exists>m' ld'. redomain ''myplugin'' ?m = Inr m'
     \<and> map_of m' ''domain'' = Some (JStr ''myplugin'')
     \<and> map_of m' ''locale_data'' = Some (JObj ld')
     \<and> map_of ld' ''myplugin''
         = Some (JObj [([], JObj [(''domain'', JStr ''myplugin''), (''lang'', JStr ''sv_SE'')]),
                       (''Hello'', JArr [JStr ''Hej''])])
     \<and> map_of ld' ''messages'' = None"
    using moved
    apply (elim exE conjE)
    subgoal for m' ld'
      by (intro exI[of _ m'] exI[of _ ld']) simp
    done
  show ?thesis using 1 kept by (rule conjI)
qed

text \<open>
  C2 as it is written fails for a catalog whose domain is the empty string: it
  differs from the target domain, and the guard of the step leaves the catalog
  as it is.
\<close>

theorem redomain_empty_domain_counterexample:
  "map_of [(''domain'', JStr []),
           (''locale_data'', JObj [([], JObj [([], JObj [(''domain'', JStr []), (''lang'', JStr ''sv_SE'')])])])]
      ''domain'' \<noteq> Some (JStr ''myplugin'')
   \<and> redomain ''myplugin''
        [(''domain'', JStr []),
         (''locale_data'', JObj [([], JObj [([], JObj [(''domain'', JStr []), (''lang'', JStr ''sv_SE'')])])])]
      = Inr [(''domain'', JStr []),
             (''locale_data'', JObj [([], JObj [([], JObj [(''domain'', JStr []), (''lang'', JStr ''sv_SE'')])])])]"
  by (simp add: redomain_def)

text \<open>
  C3. When the dependency analysis of an entrypoint succeeds and no fragment's
  source, joined to the project root, is among the dependencies, the loop body
  emits no file and leaves the fragments as they are: the run is the run
  without that manifest entry.
\<close>

theorem unrelated_entry_skipped:
  assumes "madge (path_join [src paths, key]) = Inr deps"
    and "\<forall>t\<in>set translations.
           isRelated (map (\<lambda>dep. path_join [src paths, dep]) deps) (root paths) t = Inr False"
  shows "generateTranslations_entry madge md5 lang domain paths key (JStr out) translations
           = Inr (translations, None)
     \<and> generateTranslations madge md5 lang domain paths ((key, JStr out) # manifest) translations
           = generateTranslations madge md5 lang domain paths manifest translations"
  using entry_unrelated[where madge = madge and paths = paths and key = key, OF assms] by simp

theorem unrelated_entry_skipped_witness:
  "generateTranslations shared_madge digest ''sv_SE'' ''myplugin'' project
     [(''a.js'', JStr ''a.1.js'')]
     [fragment ''src/other.js'' ''messages'' ''sv_SE'' [(''Hello'', JArr [JStr ''Hej''])]]
   = ([], Inr [fragment ''src/other.js'' ''messages'' ''sv_SE'' [(''Hello'', JArr [JStr ''Hej''])]])"
proof -
  have m: "shared_madge (path_join [src project, ''a.js'']) = Inr [''a.js'', ''shared.js'']"
    by (simp add: shared_madge_def path_eval)
  have u: "\<forall>t\<in>set [fragment ''src/other.js'' ''messages'' ''sv_SE'' [(''Hello'', JArr [JStr ''Hej''])]].
      isRelated (map (\<lambda>dep. path_join [src project, dep]) [''a.js'', ''shared.js'']) (root project) t
        = Inr False"
    by (simp add: fragment_def path_eval)
  show ?thesis
    using unrelated_entry_skipped[where madge = shared_madge and paths = project and key = "''a.js''"
        and ?md5.0 = digest and lang = "''sv_SE''" and domain = "''myplugin''" and out = "''a.1.js''"
        and manifest = "[]", OF m u]
    by simp
qed



text \<open>
  C7. The source of every emitted catalog is the path of the built file, the
  manifest's value joined to the dist directory, with the first occurrence of
  the project root and then one leading separator removed. With the paths of
  \<^verbatim>\<open>getData\<close> and a manifest value that is a plain relative path, it is
  that value after \<^verbatim>\<open>dist/\<close>, relative to the root and without a leading
  separator.
\<close>

theorem catalog_source_relative:
  assumes "generateTranslations_entry madge md5 lang domain paths key (JStr out) translations
             = Inr (translations', Some (fname, catalog))"
  shows "catalog_source catalog
           = Some (strip_leading_slash (remove_first (root paths) (path_join [dist paths, out])))
     \<and> (paths = getData_paths (slash # join_with ''/'' rs) tmpdir
           \<and> (\<forall>s\<in>set rs. plain s) \<and> (\<forall>s\<in>set segments. plain s) \<and> segments \<noteq> []
           \<and> out = join_with ''/'' segments
          \<longrightarrow> catalog_source catalog = Some (''dist/'' @ out))"
proof -
  from entry_file[OF assms] obtain c where c: "catalog = JObj c"
    and s: "map_of c ''source'' = Some (JStr (relativeFilename paths (path_join [dist paths, out])))"
    by auto
  have g: "map_of c ''source'' = Some (JStr (''dist/'' @ out))"
    if "paths = getData_paths (slash # join_with ''/'' rs) tmpdir" "\<forall>s\<in>set rs. plain s"
      "\<forall>s\<in>set segments. plain s" "segments \<noteq> []" "out = join_with ''/'' segments"
    using relativeFilename_getData[OF that(2,3,4), of tmpdir] that(1,5) s by simp
  have 1: "catalog_source catalog
           = Some (strip_leading_slash (remove_first (root paths) (path_join [dist paths, out])))"
    using c s by (simp add: catalog_source_def relativeFilename_def)
  have 2: "paths = getData_paths (slash # join_with ''/'' rs) tmpdir
           \<and> (\<forall>s\<in>set rs. plain s) \<and> (\<forall>s\<in>set segments. plain s) \<and> segments \<noteq> []
           \<and> out = join_with ''/'' segments
          \<longrightarrow> catalog_source catalog = Some (''dist/'' @ out)"
    using g c by (auto simp: catalog_source_def)
  show ?thesis using 1 2 by (intro conjI)
qed

theorem catalog_source_relative_witness:
  "generateTranslations_entry shared_madge digest ''en_US'' ''myplugin'' project ''a.js''
      (JStr ''a.abc123.js'') [fragment ''src/a.js'' ''messages'' ''en_US'' [(''Hello'', JArr [JStr ''Hello''])]]
    = Inr ([fragment ''dist/a.abc123.js'' ''myplugin'' ''en_US'' [(''Hello'', JArr [JStr ''Hello''])]],
           Some (''/proj/dist/myplugin-en_US-dist_a.abc123.js.json'',
                 fragment ''dist/a.abc123.js'' ''myplugin'' ''en_US'' [(''Hello'', JArr [JStr ''Hello''])]))
   \<and> catalog_source (fragment ''dist/a.abc123.js'' ''myplugin'' ''en_US'' [(''Hello'', JArr [JStr ''Hello''])])
       = Some (''dist/'' @ ''a.abc123.js'')"
proof -
  have ev: "generateTranslations_entry shared_madge digest ''en_US'' ''myplugin'' project ''a.js''
      (JStr ''a.abc123.js'') [fragment ''src/a.js'' ''messages'' ''en_US'' [(''Hello'', JArr [JStr ''Hello''])]]
    = Inr ([fragment ''dist/a.abc123.js'' ''myplugin'' ''en_US'' [(''Hello'', JArr [JStr ''Hello''])]],
           Some (''/proj/dist/myplugin-en_US-dist_a.abc123.js.json'',
                 fragment ''dist/a.abc123.js'' ''myplugin'' ''en_US'' [(''Hello'', JArr [JStr ''Hello''])]))"
    by (simp add: path_eval entry_eval)
  have p: "project = getData_paths (slash # join_with ''/'' [''proj'']) ''/tmp''
      \<and> (\<forall>s\<in>set [''proj'']. plain s) \<and> (\<forall>s\<in>set [''a.abc123.js'']. plain s)
      \<and> [''a.abc123.js''] \<noteq> [] \<and> ''a.abc123.js'' = join_with ''/'' [''a.abc123.js'']"
    by (simp add: project_def slash_def plain_def)
  have "catalog_source (fragment ''dist/a.abc123.js'' ''myplugin'' ''en_US'' [(''Hello'', JArr [JStr ''Hello''])])
       = Some (''dist/'' @ ''a.abc123.js'')"
    using catalog_source_relative[where rs = "[''proj'']" and tmpdir = "''/tmp''"
        and segments = "[''a.abc123.js'']", OF ev]
    by (rule conjE) (erule mp, rule p)
  then show ?thesis using ev by (rule conjI[rotated])
qed

text \<open>
  C8. When the domain of the merged catalog is the target domain already, the
  re-domain step returns the catalog itself: nothing is moved, deleted or
  rewritten. And the step is idempotent: applied to its own result, it returns
  that result.
\<close>

theorem redomain_same_domain:
  "(map_of m ''domain'' = Some (JStr domain) \<longrightarrow> redomain domain m = Inr m)
   \<and> (redomain domain m = Inr m' \<longrightarrow> redomain domain m' = Inr m')"
  using redomain_noop redomain_idem by blast

theorem redomain_same_domain_witness:
  "redomain ''myplugin''
     [(''domain'', JStr ''myplugin''),
      (''locale_data'', JObj [(''myplugin'', JObj [([], JObj [(''domain'', JStr ''myplugin'')])])])]
   = Inr [(''domain'', JStr ''myplugin''),
      (''locale_data'', JObj [(''myplugin'', JObj [([], JObj [(''domain'', JStr ''myplugin'')])])])]
   \<and> redomain ''myplugin''
     [(''domain'', JStr ''messages''),
      (''locale_data'', JObj [(''messages'', JObj [([], JObj [(''domain'', JStr ''messages'')])])])]
   = Inr [(''domain'', JStr ''myplugin''),
      (''locale_data'', JObj [(''myplugin'', JObj [([], JObj [(''domain'', JStr ''myplugin'')])])])]"
proof -
  let ?m = "[(''domain'', JStr ''myplugin''),
      (''locale_data'', JObj [(''myplugin'', JObj [([], JObj [(''domain'', JStr ''myplugin'')])])])]"
  let ?o = "[(''domain'', JStr ''messages''),
      (''locale_data'', JObj [(''messages'', JObj [([], JObj [(''domain'', JStr ''messages'')])])])]"
  have d: "map_of ?m ''domain'' = Some (JStr ''myplugin'')" by simp
  have r: "redomain ''myplugin'' ?o = Inr ?m" by (simp add: redomain_def)
  from redomain_same_domain[of ?m "''myplugin''" ?m] d
  have 1: "redomain ''myplugin'' ?m = Inr ?m" by blast
  from redomain_same_domain[of ?o "''myplugin''" ?m] r
  have 2: "redomain ''myplugin'' ?m = Inr ?m" by blast
  show ?thesis using 1 2 r by simp
qed

text \<open>
  C4 holds of the specification and not of the code. With two template files of
  which only the second declares the domain, the first file has no match,
  destructuring the result of \<^verbatim>\<open>match\<close> raises a TypeError, and the second file is
  never read.
\<close>

theorem extractDomain_stops_at_first_file:
  "extractDomain (\<lambda>d. Inr [''a.pot'', ''b.pot''])
     (\<lambda>file. if file = ''/proj/dist/a.pot'' then Inr ''msgid hello''
             else if file = ''/proj/dist/b.pot''
               then Inr (CHR 0x22 # ''X-Domain: foo'' @ [CHR 0x5C, CHR ''n'', CHR 0x22])
             else Inl (External ''ENOENT''))
     ''/proj/dist''
   = Inl TypeError"
  by (simp add: extractDomain_def path_eval match_at_def marker_head_def marker_tail_def
      toLowerAscii_def is_space_def)

text \<open>
  C5 holds of the specification and not of the code. \<^verbatim>\<open>_.merge\<close> returns its
  first argument, so the first selected fragment is the merged catalog: the
  re-domain step and the assignment of the source rewrite it. Of two entrypoints
  that import the same module, the second no longer finds the fragment of that
  module and gets no file.
\<close>

theorem shared_fragment_rewritten:
  "generateTranslations shared_madge digest ''sv_SE'' ''myplugin'' project
     [(''a.js'', JStr ''a.1.js''), (''b.js'', JStr ''b.2.js'')]
     [fragment ''src/shared.js'' ''messages'' ''sv_SE'' [(''Hello'', JArr [JStr ''Hej''])]]
   = ([(''/proj/dist/myplugin-sv_SE-dist_a.1.js.json'',
        fragment ''dist/a.1.js'' ''myplugin'' ''sv_SE'' [(''Hello'', JArr [JStr ''Hej''])])],
      Inr [fragment ''dist/a.1.js'' ''myplugin'' ''sv_SE'' [(''Hello'', JArr [JStr ''Hej''])]])"
  by (simp add: path_eval entry_eval)


subsection \<open>The claims about the operations\<close>

text \<open>
  C9, as amended. \<^verbatim>\<open>makeJson\<close> and \<^verbatim>\<open>makeAliases\<close> return whatever happens. An
  error that ends the body of \<^verbatim>\<open>makeJson\<close>, the failure of an awaited write
  among them, is printed after the message \<^verbatim>\<open>Could not generate translations\<close>; an
  error that ends the body of \<^verbatim>\<open>makeAliases\<close> is printed alone, with no message;
  without an error neither prints anything. When \<^verbatim>\<open>getData\<close> succeeds, \<^verbatim>\<open>makePot\<close>
  returns, and prints a message and the error that ends its \<^verbatim>\<open>try\<close> block, or
  nothing; an error of \<^verbatim>\<open>getData\<close>, which is awaited before the \<^verbatim>\<open>try\<close>, leaves
  \<^verbatim>\<open>makePot\<close> uncaught and unprinted.
\<close>

theorem top_level_error_handling:
  "outcome (json_report (makeJson env)) = Returned
   \<and> (snd (snd (makeJson_body env)) = Inl e1 \<longrightarrow>
        console (json_report (makeJson env))
          = [Message ''Could not generate translations'', Logged e1])
   \<and> (snd (snd (makeJson_body env)) = Inr () \<longrightarrow> console (json_report (makeJson env)) = [])
   \<and> outcome (run (makeAliases aenv)) = Returned
   \<and> (snd (snd (makeAliases_body aenv)) = Inl e2 \<longrightarrow>
        console (run (makeAliases aenv)) = [Logged e2])
   \<and> (snd (snd (makeAliases_body aenv)) = Inr () \<longrightarrow> console (run (makeAliases aenv)) = [])
   \<and> (pot_getData penv = Inr (pkg, paths) \<longrightarrow>
        outcome (makePot penv) = Returned
        \<and> (makePot_body penv pkg paths = Inl e3 \<longrightarrow>
             console (makePot penv)
               = [Message ''An error occured while generating a .pot-file'', Logged e3])
        \<and> (makePot_body penv pkg paths = Inr () \<longrightarrow> console (makePot penv) = []))
   \<and> (pot_getData penv = Inl e4 \<longrightarrow> makePot penv = \<lparr>console = [], outcome = Raised e4\<rparr>)"
proof -
  have 1: "outcome (json_report (makeJson env)) = Returned"
    by (rule makeJson_run(1))
  have 2: "snd (snd (makeJson_body env)) = Inl e1 \<longrightarrow>
        console (json_report (makeJson env))
          = [Message ''Could not generate translations'', Logged e1]"
    by (simp add: makeJson_run(2))
  have 3: "snd (snd (makeJson_body env)) = Inr () \<longrightarrow> console (json_report (makeJson env)) = []"
    by (simp add: makeJson_run(3))
  have 4: "outcome (run (makeAliases aenv)) = Returned"
    by (rule makeAliases_run(1))
  have 5: "snd (snd (makeAliases_body aenv)) = Inl e2 \<longrightarrow>
        console (run (makeAliases aenv)) = [Logged e2]"
    by (simp add: makeAliases_run(2))
  have 6: "snd (snd (makeAliases_body aenv)) = Inr () \<longrightarrow> console (run (makeAliases aenv)) = []"
    by (simp add: makeAliases_run(3))
  have 7: "pot_getData penv = Inr (pkg, paths) \<longrightarrow>
        outcome (makePot penv) = Returned
        \<and> (makePot_body penv pkg paths = Inl e3 \<longrightarrow>
             console (makePot penv)
               = [Message ''An error occured while generating a .pot-file'', Logged e3])
        \<and> (makePot_body penv pkg paths = Inr () \<longrightarrow> console (makePot penv) = [])"
    by (simp add: makePot_def caught_outcome caught_console caught_quiet)
  have 8: "pot_getData penv = Inl e4 \<longrightarrow> makePot penv = \<lparr>console = [], outcome = Raised e4\<rparr>"
    by (simp add: makePot_def)
  show ?thesis using 1 2 3 4 5 6 7 8 by (intro conjI)
qed

theorem top_level_error_handling_witness:
  "console (json_report (makeJson (json_env_of (\<lambda>file. Some (External ''EACCES'')))))
      = [Message ''Could not generate translations'', Logged (External ''EACCES'')]
   \<and> outcome (json_report (makeJson (json_env_of (\<lambda>file. Some (External ''EACCES''))))) = Returned
   \<and> console (json_report (makeJson (json_env_of (\<lambda>file. None)))) = []
   \<and> console (run (makeAliases failing_alias_env)) = [Logged (External ''ENOENT'')]
   \<and> outcome (run (makeAliases failing_alias_env)) = Returned
   \<and> console (run (makeAliases (quiet_alias_env wordpress_package))) = []
   \<and> console (makePot (pot_env_of (Inr ([(''name'', JStr ''@sst/plugin'')], project))
                         (\<lambda>from to. Some (External ''ENOENT''))))
      = [Message ''An error occured while generating a .pot-file'', Logged (External ''ENOENT'')]
   \<and> outcome (makePot (pot_env_of (Inr ([(''name'', JStr ''@sst/plugin'')], project))
                         (\<lambda>from to. Some (External ''ENOENT'')))) = Returned
   \<and> console (makePot (pot_env_of (Inr ([(''name'', JStr ''@sst/plugin'')], project))
                         (\<lambda>from to. None))) = []
   \<and> makePot (pot_env_of (Inl TypeError) (\<lambda>from to. None))
      = \<lparr>console = [], outcome = Raised TypeError\<rparr>"
proof -
  let ?j1 = "json_env_of (\<lambda>file. Some (External ''EACCES''))"
  let ?j2 = "json_env_of (\<lambda>file. None)"
  let ?a2 = "quiet_alias_env wordpress_package"
  let ?pkg = "[(''name'', JStr ''@sst/plugin'')]"
  let ?p1 = "pot_env_of (Inr (?pkg, project)) (\<lambda>from to. Some (External ''ENOENT''))"
  let ?p2 = "pot_env_of (Inr (?pkg, project)) (\<lambda>from to. None)"
  let ?p3 = "pot_env_of (Inl TypeError) (\<lambda>from to. None)"
  have j1: "snd (snd (makeJson_body ?j1)) = Inl (External ''EACCES'')" by code_simp
  have j2: "snd (snd (makeJson_body ?j2)) = Inr ()" by code_simp
  have a1: "snd (snd (makeAliases_body failing_alias_env)) = Inl (External ''ENOENT'')"
    by code_simp
  have a2: "snd (snd (makeAliases_body ?a2)) = Inr ()" by code_simp
  have g1: "pot_getData ?p1 = Inr (?pkg, project)" by (simp add: pot_env_of_def)
  have g2: "pot_getData ?p2 = Inr (?pkg, project)" by (simp add: pot_env_of_def)
  have g3: "pot_getData ?p3 = Inl TypeError" by (simp add: pot_env_of_def)
  have b1: "makePot_body ?p1 ?pkg project = Inl (External ''ENOENT'')"
    by (simp add: makePot_body_def pot_env_of_def)
  have b2: "makePot_body ?p2 ?pkg project = Inr ()"
    by (simp add: makePot_body_def pot_env_of_def)
  note t1 = top_level_error_handling[where env = ?j1 and ?e1.0 = "External ''EACCES''"
      and aenv = failing_alias_env and ?e2.0 = "External ''ENOENT''"
      and penv = ?p1 and pkg = ?pkg and paths = project and ?e3.0 = "External ''ENOENT''"
      and ?e4.0 = TypeError]
  note t2 = top_level_error_handling[where env = ?j2 and ?e1.0 = TypeError
      and aenv = ?a2 and ?e2.0 = TypeError
      and penv = ?p2 and pkg = ?pkg and paths = project and ?e3.0 = TypeError
      and ?e4.0 = TypeError]
  note t3 = top_level_error_handling[where env = ?j2 and ?e1.0 = TypeError
      and aenv = ?a2 and ?e2.0 = TypeError
      and penv = ?p3 and pkg = ?pkg and paths = project and ?e3.0 = TypeError
      and ?e4.0 = TypeError]
  from t1 have c1: "console (json_report (makeJson ?j1))
      = [Message ''Could not generate translations'', Logged (External ''EACCES'')]"
    using j1 by simp
  from t1 have c2: "outcome (json_report (makeJson ?j1)) = Returned" by simp
  from t2 have c3: "console (json_report (makeJson ?j2)) = []" using j2 by simp
  from t1 have c4: "console (run (makeAliases failing_alias_env)) = [Logged (External ''ENOENT'')]"
    using a1 by simp
  from t1 have c5: "outcome (run (makeAliases failing_alias_env)) = Returned" by simp
  from t2 have c6: "console (run (makeAliases ?a2)) = []" using a2 by simp
  from t1 have c7: "console (makePot ?p1)
      = [Message ''An error occured while generating a .pot-file'', Logged (External ''ENOENT'')]"
    using g1 b1 by simp
  from t1 have c8: "outcome (makePot ?p1) = Returned" using g1 by simp
  from t2 have c9: "console (makePot ?p2) = []" using g2 b2 by simp
  from t3 have c10: "makePot ?p3 = \<lparr>console = [], outcome = Raised TypeError\<rparr>"
    using g3 by simp
  show ?thesis using c1 c2 c3 c4 c5 c6 c7 c8 c9 c10 by (intro conjI)
qed

text \<open>
  C9 as it is written fails for \<^verbatim>\<open>makePot\<close> when \<^verbatim>\<open>getData\<close> raises, as it does
  where no package manifest is found: the error reaches the caller and nothing
  is printed.
\<close>

theorem makePot_getData_error_counterexample:
  "makePot \<lparr>pot_getData = Inl TypeError,
            pot_copy = (\<lambda>from to. None),
            pot_replace = (\<lambda>glob. None),
            pot_execa = (\<lambda>args. None)\<rparr>
   = \<lparr>console = [], outcome = Raised TypeError\<rparr>"
  by (simp add: makePot_def)

text \<open>
  C10, as amended. When \<^verbatim>\<open>makeAliases\<close> writes the package manifest, its alias
  mapping holds, for a key that contains \<^verbatim>\<open>@wordpress\<close>, the alias file of the
  module when the key is a current dependency and nothing otherwise; for the
  keys \<^verbatim>\<open>react\<close> and \<^verbatim>\<open>lodash\<close>, when they are current dependencies, their alias
  files; and for every other key its previous value, unchanged.
\<close>

theorem makeAliases_alias_mapping:
  assumes "alias_getData env = Inr (pkg, paths)"
    and "(p, Json pkg') \<in> set (files (makeAliases env))"
    and "distinct (map fst (previous_alias pkg))"
  shows "\<exists>keys al. object_keys (map_of pkg ''dependencies'') = Inr keys
     \<and> map_of pkg' ''alias'' = Some (JObj al)
     \<and> (\<forall>k. map_of al k =
          (if includes_str ''@wordpress'' k
             then (if k \<in> set keys
                   then Some (JStr (''./src/alias/wordpress-'' @ moduleName_of k @ ''.js''))
                   else None)
           else if k = ''react'' \<and> ''react'' \<in> set keys then Some (JStr ''./src/alias/react.js'')
           else if k = ''lodash'' \<and> ''lodash'' \<in> set keys then Some (JStr ''./src/alias/lodash.js'')
           else map_of (previous_alias pkg) k))"
proof -
  from makeAliases_package[OF assms(1,2)] obtain keys ds fs al where
    keys: "object_keys (map_of pkg ''dependencies'') = Inr keys"
    and ds: "alias_dependencies keys = Inr ds"
    and w: "write_aliases env (path_join [root paths, ''./src/alias'']) ds
       (fresh_alias [] (previous_alias pkg)) = (fs, Inr al)"
    and pkg': "pkg' = AList.update ''alias'' (JObj al) pkg"
    by blast
  have a: "map_of pkg' ''alias'' = Some (JObj al)" using pkg' by (simp add: update_conv')
  have v: "map_of al k =
          (if includes_str ''@wordpress'' k
             then (if k \<in> set keys
                   then Some (JStr (''./src/alias/wordpress-'' @ moduleName_of k @ ''.js''))
                   else None)
           else if k = ''react'' \<and> ''react'' \<in> set keys then Some (JStr ''./src/alias/react.js'')
           else if k = ''lodash'' \<and> ''lodash'' \<in> set keys then Some (JStr ''./src/alias/lodash.js'')
           else map_of (previous_alias pkg) k)" for k
  proof -
    have prev: "map_of (fresh_alias [] (previous_alias pkg)) k =
        (if includes_str ''@wordpress'' k then None else map_of (previous_alias pkg) k)"
      using fresh_alias_value[OF assms(3), of "[]" k] by (simp split: option.splits)
    note f = alias_dependencies_find[OF ds, of k]
    show ?thesis
    proof (cases "find (\<lambda>d. name d = k) (rev ds)")
      case None
      then show ?thesis using write_aliases_value[OF w, of k] prev f not_wordpress_react_lodash
        by (auto split: if_splits)
    next
      case (Some d)
      then show ?thesis using write_aliases_value[OF w, of k] f not_wordpress_react_lodash
        by (auto split: if_splits)
    qed
  qed
  show ?thesis using keys a v by blast
qed

theorem makeAliases_alias_mapping_witness:
  "files (makeAliases (quiet_alias_env wordpress_package))
     = [(''/proj/src/alias/wordpress-block-editor.js'', Text (template ''window.wp.blockEditor'')),
        (''/proj/src/alias/lodash.js'', Text (template ''window.lodash'')),
        (''/proj/package.json'',
         Json [(''name'', JStr ''plugin''),
               (''dependencies'', JObj [(''@wordpress/block-editor'', JStr ''^2.0.0''), (''lodash'', JStr ''^4.17.11'')]),
               (''alias'', JObj [(''jquery'', JStr ''./src/jquery.js''),
                     (''@wordpress/block-editor'', JStr ''./src/alias/wordpress-block-editor.js''),
                     (''lodash'', JStr ''./src/alias/lodash.js'')])])]
   \<and> (\<exists>keys al. object_keys (map_of wordpress_package ''dependencies'') = Inr keys
     \<and> map_of [(''name'', JStr ''plugin''),
               (''dependencies'', JObj [(''@wordpress/block-editor'', JStr ''^2.0.0''), (''lodash'', JStr ''^4.17.11'')]),
               (''alias'', JObj [(''jquery'', JStr ''./src/jquery.js''),
                     (''@wordpress/block-editor'', JStr ''./src/alias/wordpress-block-editor.js''),
                     (''lodash'', JStr ''./src/alias/lodash.js'')])] ''alias'' = Some (JObj al)
     \<and> (\<forall>k. map_of al k =
          (if includes_str ''@wordpress'' k
             then (if k \<in> set keys
                   then Some (JStr (''./src/alias/wordpress-'' @ moduleName_of k @ ''.js''))
                   else None)
           else if k = ''react'' \<and> ''react'' \<in> set keys then Some (JStr ''./src/alias/react.js'')
           else if k = ''lodash'' \<and> ''lodash'' \<in> set keys then Some (JStr ''./src/alias/lodash.js'')
           else map_of (previous_alias wordpress_package) k)))"
proof -
  let ?pkg' = "[(''name'', JStr ''plugin''),
               (''dependencies'', JObj [(''@wordpress/block-editor'', JStr ''^2.0.0''), (''lodash'', JStr ''^4.17.11'')]),
               (''alias'', JObj [(''jquery'', JStr ''./src/jquery.js''),
                     (''@wordpress/block-editor'', JStr ''./src/alias/wordpress-block-editor.js''),
                     (''lodash'', JStr ''./src/alias/lodash.js'')])]"
  have ev: "files (makeAliases (quiet_alias_env wordpress_package))
     = [(''/proj/src/alias/wordpress-block-editor.js'', Text (template ''window.wp.blockEditor'')),
        (''/proj/src/alias/lodash.js'', Text (template ''window.lodash'')),
        (''/proj/package.json'', Json ?pkg')]"
    by code_simp
  have h1: "alias_getData (quiet_alias_env wordpress_package) = Inr (wordpress_package, project)"
    by (simp add: quiet_alias_env_def)
  have h2: "(''/proj/package.json'', Json ?pkg') \<in> set (files (makeAliases (quiet_alias_env wordpress_package)))"
    unfolding ev by simp
  have h3: "distinct (map fst (previous_alias wordpress_package))"
    by (simp add: previous_alias_def wordpress_package_def)
  note c = makeAliases_alias_mapping[OF h1 h2 h3]
  show ?thesis using ev c by (rule conjI)
qed

text \<open>
  C10 as it is written fails for the key \<^verbatim>\<open>react\<close>: it does not contain
  \<^verbatim>\<open>@wordpress\<close>, and its previous value is replaced by the alias file when
  \<^verbatim>\<open>react\<close> is a dependency.
\<close>

theorem react_alias_overwritten_counterexample:
  "map_of (previous_alias react_package) ''react'' = Some (JStr ''preact/compat'')
   \<and> \<not> includes_str ''@wordpress'' ''react''
   \<and> files (makeAliases (quiet_alias_env react_package))
       = [(''/proj/src/alias/react.js'', Text (template ''window.React'')),
          (''/proj/package.json'',
           Json [(''name'', JStr ''plugin''),
                 (''dependencies'', JObj [(''react'', JStr ''^16.8.0'')]),
                 (''alias'', JObj [(''react'', JStr ''./src/alias/react.js'')])])]"
  by code_simp

end
